theory Spec2Isabelle
  imports Main
begin

section \<open>The poll store of Vote\_Bot\<close>

text \<open>
  The store is a SQLite file with two tables. Every function of db.py opens a
  connection of its own, runs a few statements and closes the connection. The model
  keeps that shape: a database value (the committed content of the file), a connection
  (the file, the open transaction and the \<open>foreign_keys\<close> switch), statements that run
  on a connection, and one HOL function per function of db.py that returns the file's
  content after the call together with the value returned or the exception raised.

  Conventions. Python integers are \<open>int\<close>; identifiers are taken to lie in SQLite's
  64-bit INTEGER range, as the identifiers of the chat platform do. Labels are
  \<open>string\<close>s, a \<open>char\<close> read as the code point of that number. The timestamp that
  \<open>datetime('now')\<close> stores is an explicit argument \<open>now\<close>.
\<close>

subsection \<open>Text\<close>

text \<open>\<open>str.isspace\<close> on the code points below 256.\<close>

definition isspace :: "char \<Rightarrow> bool" where
  "isspace c =
     (let n = (of_char c :: nat)
      in (9 \<le> n \<and> n \<le> 13) \<or> (28 \<le> n \<and> n \<le> 32) \<or> n = 133 \<or> n = 160)"

text \<open>\<open>str.strip()\<close>: leading and trailing whitespace removed.\<close>

definition strip :: "string \<Rightarrow> string" where
  "strip s = rev (dropWhile isspace (rev (dropWhile isspace s)))"

text \<open>\<open>enumerate(xs, start=k)\<close>.\<close>

fun py_enumerate :: "int \<Rightarrow> 'a list \<Rightarrow> (int \<times> 'a) list" where
  "py_enumerate k [] = []"
| "py_enumerate k (x # xs) = (k, x) # py_enumerate (k + 1) xs"

subsection \<open>Tables, database, exceptions\<close>

text \<open>
  A row of \<open>vote_options\<close> is \<open>(option_id, label)\<close>; a row of \<open>votes\<close> is
  \<open>(user_id, option_id, created_at)\<close>. A table that has not been created is \<open>None\<close>;
  a table that exists holds its rows in insertion order.
\<close>

type_synonym option_row = "int \<times> string"
type_synonym vote_row = "int \<times> int \<times> string"

record database =
  vote_options :: "option_row list option"
  votes :: "vote_row list option"

datatype error =
    ValueError string
  | OperationalError string
  | IntegrityError string

text \<open>
  The dataclass \<open>VoteStandingRow\<close>; its field \<open>votes\<close> is \<open>vote_count\<close> here, the
  name \<open>votes\<close> being the table's.
\<close>

record VoteStandingRow =
  option_id :: int
  label :: string
  vote_count :: int

definition no_such_table :: "string \<Rightarrow> error" where
  "no_such_table name = OperationalError (''no such table: '' @ name)"

definition unique_failed :: "string \<Rightarrow> error" where
  "unique_failed col = IntegrityError (''UNIQUE constraint failed: '' @ col)"

definition foreign_key_failed :: error where
  "foreign_key_failed = IntegrityError ''FOREIGN KEY constraint failed''"

subsection \<open>Connections and statements\<close>

text \<open>
  \<open>disk\<close> is the committed content, \<open>txn\<close> the content as the open transaction
  has changed it (\<open>None\<close> outside a transaction), \<open>foreign_keys\<close> the pragma, which
  is off on a new connection.
\<close>

record connection =
  disk :: database
  txn :: "database option"
  foreign_keys :: bool

type_synonym 'a stmt = "connection \<Rightarrow> (error + 'a) \<times> connection"

definition connect :: "database \<Rightarrow> connection" where
  "connect d = \<lparr>disk = d, txn = None, foreign_keys = False\<rparr>"

definition view :: "connection \<Rightarrow> database" where
  "view c = (case txn c of None \<Rightarrow> disk c | Some w \<Rightarrow> w)"

text \<open>Two statements one after the other: an exception in the first skips the second.\<close>

definition then_exec :: "unit stmt \<Rightarrow> 'a stmt \<Rightarrow> 'a stmt" where
  "then_exec s t c = (case s c of (Inl e, c') \<Rightarrow> (Inl e, c') | (Inr u, c') \<Rightarrow> t c')"

fun block :: "unit stmt list \<Rightarrow> unit stmt" where
  "block [] c = (Inr (), c)"
| "block (s # ss) c = then_exec s (block ss) c"

text \<open>
  \<open>async with aiosqlite.connect(db_path) as db: body\<close>. Leaving the block closes the
  connection, which rolls an open transaction back: what stays is \<open>disk\<close>.
\<close>

definition with_connection :: "database \<Rightarrow> 'a stmt \<Rightarrow> database \<times> (error + 'a)" where
  "with_connection d body = (case body (connect d) of (r, c) \<Rightarrow> (disk c, r))"

text \<open>\<open>PRAGMA foreign_keys = ON\<close> does nothing inside a transaction.\<close>

definition pragma_foreign_keys_on :: "unit stmt" where
  "pragma_foreign_keys_on c =
     (Inr (), if txn c = None then c\<lparr>foreign_keys := True\<rparr> else c)"

definition begin_txn :: "unit stmt" where
  "begin_txn c =
     (case txn c of
        None \<Rightarrow> (Inr (), c\<lparr>txn := Some (disk c)\<rparr>)
      | Some w \<Rightarrow>
          (Inl (OperationalError ''cannot start a transaction within a transaction''), c))"

definition commit :: "unit stmt" where
  "commit c = (Inr (), c\<lparr>disk := view c, txn := None\<rparr>)"

text \<open>
  INSERT and DELETE: the sqlite3 module opens a transaction first when none is open.
  A statement that fails changes nothing.
\<close>

definition dml :: "(bool \<Rightarrow> database \<Rightarrow> error + database) \<Rightarrow> unit stmt" where
  "dml f c =
     (let c1 = (if txn c = None then c\<lparr>txn := Some (disk c)\<rparr> else c)
      in case f (foreign_keys c1) (view c1) of
           Inl e \<Rightarrow> (Inl e, c1)
         | Inr d \<Rightarrow> (Inr (), c1\<lparr>txn := Some d\<rparr>))"

text \<open>DROP TABLE and CREATE TABLE open no transaction: outside one they commit at once.\<close>

definition ddl :: "(database \<Rightarrow> error + database) \<Rightarrow> unit stmt" where
  "ddl f c =
     (case f (view c) of
        Inl e \<Rightarrow> (Inl e, c)
      | Inr d \<Rightarrow> (Inr (), if txn c = None then c\<lparr>disk := d\<rparr> else c\<lparr>txn := Some d\<rparr>))"

text \<open>SELECT reads the content the connection sees and changes nothing.\<close>

definition query :: "(database \<Rightarrow> error + 'a) \<Rightarrow> 'a stmt" where
  "query q c = (q (view c), c)"

subsection \<open>The SQL statements of db.py\<close>

definition create_vote_options_if_not_exists :: "database \<Rightarrow> error + database" where
  "create_vote_options_if_not_exists d =
     (case vote_options d of None \<Rightarrow> Inr (d\<lparr>vote_options := Some []\<rparr>) | Some rows \<Rightarrow> Inr d)"

definition create_votes_if_not_exists :: "database \<Rightarrow> error + database" where
  "create_votes_if_not_exists d =
     (case votes d of None \<Rightarrow> Inr (d\<lparr>votes := Some []\<rparr>) | Some rows \<Rightarrow> Inr d)"

text \<open>
  The \<open>CREATE TABLE votes\<close> of \<open>clear_votes\<close> declares the columns and constraints
  that \<open>SCHEMA_SQL\<close> declares for \<open>votes\<close>, so a \<open>votes\<close> table has one shape,
  whichever of the two created it.
\<close>

definition drop_votes_if_exists :: "database \<Rightarrow> error + database" where
  "drop_votes_if_exists d = Inr (d\<lparr>votes := None\<rparr>)"

definition create_votes :: "database \<Rightarrow> error + database" where
  "create_votes d =
     (case votes d of
        None \<Rightarrow> Inr (d\<lparr>votes := Some []\<rparr>)
      | Some rows \<Rightarrow> Inl (OperationalError ''table votes already exists''))"

definition delete_from_votes :: "bool \<Rightarrow> database \<Rightarrow> error + database" where
  "delete_from_votes fk d =
     (case votes d of
        None \<Rightarrow> Inl (no_such_table ''votes'')
      | Some rows \<Rightarrow> Inr (d\<lparr>votes := Some []\<rparr>))"

text \<open>
  With the pragma on, deleting an option that a vote references violates the foreign
  key of \<open>votes\<close>.
\<close>

definition delete_from_vote_options :: "bool \<Rightarrow> database \<Rightarrow> error + database" where
  "delete_from_vote_options fk d =
     (case vote_options d of
        None \<Rightarrow> Inl (no_such_table ''vote_options'')
      | Some rows \<Rightarrow>
          if fk \<and> (case votes d of
                      None \<Rightarrow> False
                    | Some vs \<Rightarrow> list_ex (\<lambda>v. fst (snd v) \<in> set (map fst rows)) vs)
          then Inl foreign_key_failed
          else Inr (d\<lparr>vote_options := Some []\<rparr>))"

text \<open>\<open>option_id\<close> is the primary key of \<open>vote_options\<close>.\<close>

definition insert_vote_option :: "int \<Rightarrow> string \<Rightarrow> bool \<Rightarrow> database \<Rightarrow> error + database" where
  "insert_vote_option idx lbl fk d =
     (case vote_options d of
        None \<Rightarrow> Inl (no_such_table ''vote_options'')
      | Some rows \<Rightarrow>
          if idx \<in> set (map fst rows)
          then Inl (unique_failed ''vote_options.option_id'')
          else Inr (d\<lparr>vote_options := Some (rows @ [(idx, lbl)])\<rparr>))"

text \<open>
  \<open>user_id\<close> is the primary key of \<open>votes\<close>: a second row for it stops the statement
  at once. The foreign key on \<open>option_id\<close> is looked at only when the pragma is on:
  a parent table that does not exist is an error when the statement is prepared, and a
  missing parent row is reported at the end of the statement, so the primary key is
  reported when both fail.
\<close>

definition insert_vote :: "int \<Rightarrow> int \<Rightarrow> string \<Rightarrow> bool \<Rightarrow> database \<Rightarrow> error + database" where
  "insert_vote user_id opt now fk d =
     (case votes d of
        None \<Rightarrow> Inl (no_such_table ''votes'')
      | Some vs \<Rightarrow>
          if fk \<and> vote_options d = None
          then Inl (no_such_table ''main.vote_options'')
          else if user_id \<in> set (map fst vs)
          then Inl (unique_failed ''votes.user_id'')
          else if fk \<and> opt \<notin> set (map fst (case vote_options d of None \<Rightarrow> [] | Some rows \<Rightarrow> rows))
          then Inl foreign_key_failed
          else Inr (d\<lparr>votes := Some (vs @ [(user_id, opt, now)])\<rparr>))"

definition select_options :: "database \<Rightarrow> error + option_row list" where
  "select_options d =
     (case vote_options d of
        None \<Rightarrow> Inl (no_such_table ''vote_options'')
      | Some rows \<Rightarrow> Inr (sort_key fst rows))"

definition select_vote_of :: "int \<Rightarrow> database \<Rightarrow> error + vote_row option" where
  "select_vote_of user_id d =
     (case votes d of
        None \<Rightarrow> Inl (no_such_table ''votes'')
      | Some vs \<Rightarrow> Inr (find (\<lambda>v. fst v = user_id) vs))"

definition select_option :: "int \<Rightarrow> database \<Rightarrow> error + option_row option" where
  "select_option opt d =
     (case vote_options d of
        None \<Rightarrow> Inl (no_such_table ''vote_options'')
      | Some rows \<Rightarrow> Inr (find (\<lambda>r. fst r = opt) rows))"

definition select_count_votes :: "database \<Rightarrow> error + int" where
  "select_count_votes d =
     (case votes d of
        None \<Rightarrow> Inl (no_such_table ''votes'')
      | Some vs \<Rightarrow> Inr (int (length vs)))"

text \<open>
  The standings query. \<open>LEFT JOIN\<close>: every option row paired with each vote row
  that references it, or once with NULL when none does. \<open>GROUP BY o.option_id,
  o.label\<close>: one group per distinct pair. \<open>COUNT(v.user_id)\<close>: the rows of the group
  whose vote is not NULL; it is never NULL itself, so \<open>COALESCE\<close> changes nothing.
  \<open>ORDER BY o.option_id ASC\<close>.
\<close>

definition left_join :: "option_row list \<Rightarrow> vote_row list \<Rightarrow> (option_row \<times> vote_row option) list" where
  "left_join rows vs =
     concat (map (\<lambda>r. (case filter (\<lambda>v. fst (snd v) = fst r) vs of
                          [] \<Rightarrow> [(r, None)]
                        | m # ms \<Rightarrow> map (\<lambda>v. (r, Some v)) (m # ms))) rows)"

definition group_count :: "(option_row \<times> vote_row option) list \<Rightarrow> VoteStandingRow list" where
  "group_count js =
     map (\<lambda>g. \<lparr>option_id = fst g, label = snd g,
              vote_count = int (length (filter (\<lambda>j. fst j = g \<and> snd j \<noteq> None) js))\<rparr>)
       (sort_key fst (remdups (map fst js)))"

definition select_standings :: "database \<Rightarrow> error + VoteStandingRow list" where
  "select_standings d =
     (case vote_options d of
        None \<Rightarrow> Inl (no_such_table ''vote_options'')
      | Some rows \<Rightarrow>
          (case votes d of
             None \<Rightarrow> Inl (no_such_table ''votes'')
           | Some vs \<Rightarrow> Inr (group_count (left_join rows vs))))"

subsection \<open>The functions of db.py\<close>

definition init_db :: "database \<Rightarrow> database \<times> (error + unit)" where
  "init_db d =
     with_connection d
       (block [pragma_foreign_keys_on,
               ddl create_vote_options_if_not_exists,
               ddl create_votes_if_not_exists,
               commit])"

definition labels_list_of :: "string list \<Rightarrow> string list" where
  "labels_list_of labels = map strip (filter (\<lambda>l. l \<noteq> [] \<and> strip l \<noteq> []) labels)"

fun insert_options :: "(int \<times> string) list \<Rightarrow> unit stmt" where
  "insert_options [] c = (Inr (), c)"
| "insert_options ((idx, lbl) # rest) c =
     then_exec (dml (insert_vote_option idx lbl)) (insert_options rest) c"

definition set_vote_options :: "database \<Rightarrow> string list \<Rightarrow> database \<times> (error + int)" where
  "set_vote_options d labels =
     (let labels_list = labels_list_of labels
      in if length labels_list < 2
         then (d, Inl (ValueError ''At least 2 non-empty vote options are required.''))
         else case with_connection d
                     (block [pragma_foreign_keys_on,
                             begin_txn,
                             dml delete_from_votes,
                             dml delete_from_vote_options,
                             insert_options (py_enumerate 1 labels_list),
                             commit]) of
                (d', Inl e) \<Rightarrow> (d', Inl e)
              | (d', Inr u) \<Rightarrow> (d', Inr (int (length labels_list))))"

definition list_vote_options :: "database \<Rightarrow> database \<times> (error + (int \<times> string) list)" where
  "list_vote_options d = with_connection d (query select_options)"

definition user_has_voted :: "database \<Rightarrow> int \<Rightarrow> database \<times> (error + bool)" where
  "user_has_voted d user_id =
     with_connection d
       (query (\<lambda>w. case select_vote_of user_id w of
                      Inl e \<Rightarrow> Inl e
                    | Inr row \<Rightarrow> Inr (row \<noteq> None)))"

definition option_exists :: "database \<Rightarrow> int \<Rightarrow> database \<times> (error + bool)" where
  "option_exists d opt =
     with_connection d
       (query (\<lambda>w. case select_option opt w of
                      Inl e \<Rightarrow> Inl e
                    | Inr row \<Rightarrow> Inr (row \<noteq> None)))"

definition cast_vote :: "database \<Rightarrow> int \<Rightarrow> int \<Rightarrow> string \<Rightarrow> database \<times> (error + unit)" where
  "cast_vote d user_id opt now =
     with_connection d
       (block [pragma_foreign_keys_on,
               dml (insert_vote user_id opt now),
               commit])"

definition clear_votes :: "database \<Rightarrow> database \<times> (error + unit)" where
  "clear_votes d =
     with_connection d
       (block [ddl drop_votes_if_exists,
               ddl create_votes,
               commit])"

definition get_vote_standings :: "database \<Rightarrow> database \<times> (error + VoteStandingRow list)" where
  "get_vote_standings d =
     with_connection d (then_exec pragma_foreign_keys_on (query select_standings))"

text \<open>\<open>SELECT COUNT(*)\<close> always gives a row, so \<open>get_total_votes\<close> returns its count.\<close>

definition get_total_votes :: "database \<Rightarrow> database \<times> (error + int)" where
  "get_total_votes d = with_connection d (query select_count_votes)"

definition get_vote_label :: "database \<Rightarrow> int \<Rightarrow> database \<times> (error + string option)" where
  "get_vote_label d opt =
     with_connection d
       (query (\<lambda>w. case select_option opt w of
                      Inl e \<Rightarrow> Inl e
                    | Inr row \<Rightarrow> Inr (map_option snd row)))"

subsection \<open>The vote command of bot.py\<close>

text \<open>
  The handler of \<open>/vote\<close> is the caller of \<open>cast_vote\<close>. It answers with a message
  and a flag \<open>ephemeral\<close>; an exception that it does not catch leaves it. The options
  are rendered one per line as \<open>f"{i}. {label}"\<close>, which needs the decimal digits of an
  integer.
\<close>

definition digit_char :: "nat \<Rightarrow> char" where
  "digit_char n = char_of (48 + n)"

function show_nat :: "nat \<Rightarrow> string" where
  "show_nat n = (if n < 10 then [digit_char n] else show_nat (n div 10) @ [digit_char (n mod 10)])"
  by pat_completeness auto
termination
  by (relation "measure id") auto

definition show_int :: "int \<Rightarrow> string" where
  "show_int i = (if i < 0 then CHR ''-'' # show_nat (nat (- i)) else show_nat (nat i))"

fun join :: "string \<Rightarrow> string list \<Rightarrow> string" where
  "join sep [] = []"
| "join sep [x] = x"
| "join sep (x # y # ys) = x @ sep @ join sep (y # ys)"

definition render_options :: "(int \<times> string) list \<Rightarrow> string" where
  "render_options opts = join [CHR 0x0A] (map (\<lambda>(i, lbl). show_int i @ ''. '' @ lbl) opts)"

record response =
  content :: string
  ephemeral :: bool

definition vote :: "database \<Rightarrow> int \<Rightarrow> int \<Rightarrow> string \<Rightarrow> database \<times> (error + response)" where
  "vote d user_id choice now =
     (case init_db d of
        (d1, Inl e) \<Rightarrow> (d1, Inl e)
      | (d1, Inr u) \<Rightarrow>
     (case user_has_voted d1 user_id of
        (d2, Inl e) \<Rightarrow> (d2, Inl e)
      | (d2, Inr True) \<Rightarrow> (d2, Inr \<lparr>content = ''User has already voted'', ephemeral = False\<rparr>)
      | (d2, Inr False) \<Rightarrow>
     (case option_exists d2 choice of
        (d3, Inl e) \<Rightarrow> (d3, Inl e)
      | (d3, Inr False) \<Rightarrow>
          (case list_vote_options d3 of
             (d4, Inl e) \<Rightarrow> (d4, Inl e)
           | (d4, Inr opts) \<Rightarrow>
               if opts = []
               then (d4, Inr \<lparr>content =
                       ''No vote options have been set yet. An admin must run `/setvote` first.'',
                       ephemeral = True\<rparr>)
               else (d4, Inr \<lparr>content =
                       ''Invalid choice. Please vote using one of these numbers:''
                         @ [CHR 0x0A, CHR 0x0A] @ render_options opts,
                       ephemeral = True\<rparr>))
      | (d3, Inr True) \<Rightarrow>
     (case cast_vote d3 user_id choice now of
        (d4, Inl e) \<Rightarrow>
          (case user_has_voted d4 user_id of
             (d5, Inl e') \<Rightarrow> (d5, Inl e')
           | (d5, Inr True) \<Rightarrow>
               (d5, Inr \<lparr>content = ''User has already voted'', ephemeral = False\<rparr>)
           | (d5, Inr False) \<Rightarrow>
               (d5, Inr \<lparr>content = ''Sorry, something went wrong recording your vote.'',
                         ephemeral = True\<rparr>))
      | (d4, Inr u') \<Rightarrow> (d4, Inr \<lparr>content = ''Thank you for voting'', ephemeral = False\<rparr>)))))"

subsection \<open>The store as a machine\<close>

text \<open>
  A database file that has just been created has no tables. A command is one call of a
  function of db.py; \<open>call\<close> runs it, \<open>run_db\<close> and \<open>run_replies\<close> run a list of
  commands and give the final content and the outcome of every call. In bot.py,
  \<open>main\<close> calls \<open>init_db\<close> before the bot starts (and \<open>on_ready\<close> and most
  handlers call it again), so the stores that the program works on are the
  \<open>store_after hist\<close>, for the lists \<open>hist\<close> of commands.
\<close>

definition new_file :: database where
  "new_file = \<lparr>vote_options = None, votes = None\<rparr>"

datatype command =
    InitDb
  | SetVoteOptions "string list"
  | CastVote int int string
  | ClearVotes
  | ListVoteOptions
  | UserHasVoted int
  | OptionExists int
  | GetVoteStandings
  | GetTotalVotes
  | GetVoteLabel int

datatype reply =
    Done
  | Count int
  | Options "(int \<times> string) list"
  | Flag bool
  | Standings "VoteStandingRow list"
  | Label "string option"

definition returning :: "('a \<Rightarrow> reply) \<Rightarrow> database \<times> (error + 'a) \<Rightarrow> database \<times> (error + reply)" where
  "returning f x = (fst x, map_sum id f (snd x))"

fun call :: "database \<Rightarrow> command \<Rightarrow> database \<times> (error + reply)" where
  "call d InitDb = returning (\<lambda>u. Done) (init_db d)"
| "call d (SetVoteOptions labels) = returning Count (set_vote_options d labels)"
| "call d (CastVote user_id opt now) = returning (\<lambda>u. Done) (cast_vote d user_id opt now)"
| "call d ClearVotes = returning (\<lambda>u. Done) (clear_votes d)"
| "call d ListVoteOptions = returning Options (list_vote_options d)"
| "call d (UserHasVoted user_id) = returning Flag (user_has_voted d user_id)"
| "call d (OptionExists opt) = returning Flag (option_exists d opt)"
| "call d GetVoteStandings = returning Standings (get_vote_standings d)"
| "call d GetTotalVotes = returning Count (get_total_votes d)"
| "call d (GetVoteLabel opt) = returning Label (get_vote_label d opt)"

fun run_db :: "database \<Rightarrow> command list \<Rightarrow> database" where
  "run_db d [] = d"
| "run_db d (c # cs) = run_db (fst (call d c)) cs"

fun run_replies :: "database \<Rightarrow> command list \<Rightarrow> (error + reply) list" where
  "run_replies d [] = []"
| "run_replies d (c # cs) = snd (call d c) # run_replies (fst (call d c)) cs"

definition store_after :: "command list \<Rightarrow> database" where
  "store_after hist = run_db new_file (InitDb # hist)"

subsection \<open>The specification's words\<close>

text \<open>
  The labels that remain "after trimming whitespace and discarding empty entries".
\<close>

definition usable_labels :: "string list \<Rightarrow> string list" where
  "usable_labels labels = filter (\<lambda>l. l \<noteq> []) (map strip labels)"

text \<open>
  Clearing the votes as "a pure row-deletion": \<open>DELETE FROM votes\<close> in place of the
  DROP TABLE and CREATE TABLE of \<open>clear_votes\<close>.
\<close>

definition delete_all_votes :: "database \<Rightarrow> database \<times> (error + unit)" where
  "delete_all_votes d = with_connection d (block [dml delete_from_votes, commit])"

text \<open>
  A "reset" of the votes: the two operations that delete vote rows. \<open>successful_votes u d cs\<close>
  counts the calls \<open>cast_vote\<close> of user \<open>u\<close> that succeed when the commands \<open>cs\<close>
  run on the store \<open>d\<close>.
\<close>

fun resets_votes :: "command \<Rightarrow> bool" where
  "resets_votes (SetVoteOptions labels) = True"
| "resets_votes ClearVotes = True"
| "resets_votes c = False"

fun vote_succeeded :: "int \<Rightarrow> command \<times> (error + reply) \<Rightarrow> bool" where
  "vote_succeeded u (CastVote user_id opt now, Inr r) = (user_id = u)"
| "vote_succeeded u (c, r) = False"

definition successful_votes :: "int \<Rightarrow> database \<Rightarrow> command list \<Rightarrow> nat" where
  "successful_votes u d cs = length (filter (vote_succeeded u) (zip cs (run_replies d cs)))"

text \<open>
  "The number of distinct users whose successful vote referenced that option": the users
  of the calls \<open>cast_vote\<close> for \<open>opt\<close> that succeeded, each once.
\<close>

definition voters_for :: "int \<Rightarrow> command list \<Rightarrow> (error + reply) list \<Rightarrow> int list" where
  "voters_for opt cs rs =
     remdups [user_id. (CastVote user_id opt' now, Inr r) \<leftarrow> zip cs rs, opt' = opt]"

subsection \<open>Notions for the proofs\<close>

text \<open>
  What the schema promises of a store: both tables exist, the option ids are
  \<open>1..N\<close> in the order of the rows, no user has two vote rows, and every vote row
  references an option row.
\<close>

definition store_ok :: "database \<Rightarrow> bool" where
  "store_ok d =
     (case vote_options d of
        None \<Rightarrow> False
      | Some rows \<Rightarrow>
          (case votes d of
             None \<Rightarrow> False
           | Some vs \<Rightarrow>
               map fst rows = [1..int (length rows)] \<and> distinct (map fst vs) \<and>
               set (map (\<lambda>v. fst (snd v)) vs) \<subseteq> set (map fst rows)))"

text \<open>
  \<open>has_row\<close>: the user has a vote row. \<open>rows_cast\<close>: the rows that the successful
  calls of \<open>cast_vote\<close> in a run insert. \<open>block_of\<close>: what \<open>left_join\<close> gives for one
  option row.
\<close>

definition has_row :: "int \<Rightarrow> database \<Rightarrow> bool" where
  "has_row u d = (case votes d of None \<Rightarrow> False | Some vs \<Rightarrow> u \<in> set (map fst vs))"

definition rows_cast :: "command list \<Rightarrow> (error + reply) list \<Rightarrow> vote_row list" where
  "rows_cast cs rs = [(user_id, opt, now). (CastVote user_id opt now, Inr r) \<leftarrow> zip cs rs]"

definition block_of :: "vote_row list \<Rightarrow> option_row \<Rightarrow> (option_row \<times> vote_row option) list" where
  "block_of vs r = (case filter (\<lambda>v. fst (snd v) = fst r) vs of
                          [] \<Rightarrow> [(r, None)]
                        | m # ms \<Rightarrow> map (\<lambda>v. (r, Some v)) (m # ms))"

section \<open>What every call does\<close>

subsection \<open>The functions of db.py as equations\<close>

lemma cast_vote_eq:
  "cast_vote d u opt now =
     (case votes d of
        None \<Rightarrow> (d, Inl (no_such_table ''votes''))
      | Some vs \<Rightarrow>
          (case vote_options d of
             None \<Rightarrow> (d, Inl (no_such_table ''main.vote_options''))
           | Some rows \<Rightarrow>
               if u \<in> set (map fst vs) then (d, Inl (unique_failed ''votes.user_id''))
               else if opt \<notin> set (map fst rows) then (d, Inl foreign_key_failed)
               else (d\<lparr>votes := Some (vs @ [(u, opt, now)])\<rparr>, Inr ())))"
  by (simp add: cast_vote_def with_connection_def connect_def then_exec_def
      pragma_foreign_keys_on_def dml_def view_def insert_vote_def commit_def
      split: option.splits)

lemma clear_votes_eq: "clear_votes d = (d\<lparr>votes := Some []\<rparr>, Inr ())"
  by (simp add: clear_votes_def with_connection_def connect_def then_exec_def
      ddl_def view_def drop_votes_if_exists_def create_votes_def commit_def)

lemma init_db_eq:
  "init_db d =
     (\<lparr>vote_options = (case vote_options d of None \<Rightarrow> Some [] | Some rows \<Rightarrow> Some rows),
       votes = (case votes d of None \<Rightarrow> Some [] | Some vs \<Rightarrow> Some vs)\<rparr>, Inr ())"
  by (simp add: init_db_def with_connection_def connect_def then_exec_def
      pragma_foreign_keys_on_def ddl_def view_def create_vote_options_if_not_exists_def
      create_votes_if_not_exists_def commit_def split: option.splits)

lemma map_fst_py_enumerate: "map fst (py_enumerate k xs) = [k..k + int (length xs) - 1]"
proof (induction xs arbitrary: k)
  case Nil
  then show ?case by simp
next
  case (Cons x xs)
  have "[k..k + int (length (x # xs)) - 1] = k # [k + 1..k + 1 + int (length xs) - 1]"
    by (subst upto_rec1) (simp_all add: algebra_simps)
  with Cons show ?case by simp
qed

lemma length_py_enumerate: "length (py_enumerate k xs) = length xs"
  by (induction xs arbitrary: k) simp_all

lemma insert_options_ok:
  assumes "txn c = Some w" and "vote_options w = Some rows"
    and "distinct (map fst ps)" and "set (map fst ps) \<inter> set (map fst rows) = {}"
  shows "insert_options ps c = (Inr (), c\<lparr>txn := Some (w\<lparr>vote_options := Some (rows @ ps)\<rparr>)\<rparr>)"
  using assms
proof (induction ps arbitrary: c w rows)
  case Nil
  then show ?case by simp
next
  case (Cons p ps)
  obtain idx lbl where p: "p = (idx, lbl)" by (cases p)
  let ?w' = "w\<lparr>vote_options := Some (rows @ [(idx, lbl)])\<rparr>"
  let ?c' = "c\<lparr>txn := Some ?w'\<rparr>"
  have step: "dml (insert_vote_option idx lbl) c = (Inr (), ?c')"
    using Cons.prems p by (auto simp add: dml_def view_def insert_vote_option_def)
  have "insert_options ps ?c' =
          (Inr (), ?c'\<lparr>txn := Some (?w'\<lparr>vote_options := Some ((rows @ [(idx, lbl)]) @ ps)\<rparr>)\<rparr>)"
    using Cons.prems p by (intro Cons.IH) auto
  with step p show ?case by (simp add: then_exec_def)
qed

lemma set_vote_options_eq:
  "set_vote_options d labels =
     (if length (labels_list_of labels) < 2
      then (d, Inl (ValueError ''At least 2 non-empty vote options are required.''))
      else case votes d of
             None \<Rightarrow> (d, Inl (no_such_table ''votes''))
           | Some vs \<Rightarrow>
               (case vote_options d of
                  None \<Rightarrow> (d, Inl (no_such_table ''vote_options''))
                | Some rows \<Rightarrow>
                    (\<lparr>vote_options = Some (py_enumerate 1 (labels_list_of labels)),
                      votes = Some []\<rparr>,
                     Inr (int (length (labels_list_of labels))))))"
proof (cases "length (labels_list_of labels) < 2")
  case True
  then show ?thesis by (simp add: set_vote_options_def)
next
  case False
  show ?thesis
  proof (cases "votes d")
    case None
    with False show ?thesis
      by (simp add: set_vote_options_def with_connection_def connect_def then_exec_def
          pragma_foreign_keys_on_def begin_txn_def dml_def view_def delete_from_votes_def)
  next
    case (Some vs)
    note vs = Some
    show ?thesis
    proof (cases "vote_options d")
      case None
      with False vs show ?thesis
        by (simp add: set_vote_options_def with_connection_def connect_def then_exec_def
            pragma_foreign_keys_on_def begin_txn_def dml_def view_def delete_from_votes_def
            delete_from_vote_options_def)
    next
      case (Some rows)
      let ?w = "d\<lparr>votes := Some [], vote_options := Some []\<rparr>"
      let ?c = "\<lparr>disk = d, txn = Some ?w, foreign_keys = True\<rparr>"
      let ?ps = "py_enumerate 1 (labels_list_of labels)"
      have ins: "insert_options ?ps ?c =
                   (Inr (), ?c\<lparr>txn := Some (?w\<lparr>vote_options := Some ([] @ ?ps)\<rparr>)\<rparr>)"
        by (rule insert_options_ok) (simp_all add: map_fst_py_enumerate)
      have "d\<lparr>votes := Some [], vote_options := Some ?ps\<rparr> =
              \<lparr>vote_options = Some ?ps, votes = Some []\<rparr>"
        by simp
      with False vs Some ins show ?thesis
        by (simp add: set_vote_options_def with_connection_def connect_def then_exec_def
            pragma_foreign_keys_on_def begin_txn_def dml_def view_def delete_from_votes_def
            delete_from_vote_options_def commit_def Let_def)
    qed
  qed
qed

lemma list_vote_options_db: "fst (list_vote_options d) = d"
  by (simp add: list_vote_options_def with_connection_def connect_def query_def)

lemma user_has_voted_db: "fst (user_has_voted d u) = d"
  by (simp add: user_has_voted_def with_connection_def connect_def query_def)

lemma option_exists_db: "fst (option_exists d opt) = d"
  by (simp add: option_exists_def with_connection_def connect_def query_def)

lemma get_vote_standings_db: "fst (get_vote_standings d) = d"
  by (simp add: get_vote_standings_def with_connection_def connect_def query_def
      then_exec_def pragma_foreign_keys_on_def)

lemma get_total_votes_db: "fst (get_total_votes d) = d"
  by (simp add: get_total_votes_def with_connection_def connect_def query_def)

lemma get_vote_label_db: "fst (get_vote_label d opt) = d"
  by (simp add: get_vote_label_def with_connection_def connect_def query_def)

lemma find_key_iff: "(find (\<lambda>r. fst r = k) xs \<noteq> None) = (k \<in> set (map fst xs))"
  by (induction xs) auto

lemma user_has_voted_eq:
  "snd (user_has_voted d u) =
     (case votes d of
        None \<Rightarrow> Inl (no_such_table ''votes'')
      | Some vs \<Rightarrow> Inr (u \<in> set (map fst vs)))"
  by (simp add: user_has_voted_def with_connection_def connect_def query_def view_def
      select_vote_of_def find_key_iff del: not_None_eq split: option.splits)

lemma option_exists_eq:
  "snd (option_exists d opt) =
     (case vote_options d of
        None \<Rightarrow> Inl (no_such_table ''vote_options'')
      | Some rows \<Rightarrow> Inr (opt \<in> set (map fst rows)))"
  by (simp add: option_exists_def with_connection_def connect_def query_def view_def
      select_option_def find_key_iff del: not_None_eq split: option.splits)

lemma store_ok_init: "store_ok (fst (init_db new_file))"
  by (simp add: init_db_eq new_file_def store_ok_def)

lemma store_ok_init_db: "store_ok d \<Longrightarrow> fst (init_db d) = d"
  by (auto simp add: init_db_eq store_ok_def split: option.splits)

lemma store_ok_set_vote_options: "store_ok d \<Longrightarrow> store_ok (fst (set_vote_options d labels))"
  by (auto simp add: set_vote_options_eq store_ok_def map_fst_py_enumerate length_py_enumerate
      split: option.splits)

lemma store_ok_cast_vote: "store_ok d \<Longrightarrow> store_ok (fst (cast_vote d u opt now))"
  by (auto simp add: cast_vote_eq store_ok_def split: option.splits)

lemma store_ok_clear_votes: "store_ok d \<Longrightarrow> store_ok (fst (clear_votes d))"
  by (auto simp add: clear_votes_eq store_ok_def split: option.splits)

lemma store_ok_call: "store_ok d \<Longrightarrow> store_ok (fst (call d c))"
  by (cases c)
    (simp_all add: returning_def store_ok_init_db store_ok_set_vote_options store_ok_cast_vote
      store_ok_clear_votes list_vote_options_db user_has_voted_db option_exists_db
      get_vote_standings_db get_total_votes_db get_vote_label_db)

lemma store_ok_run_db: "store_ok d \<Longrightarrow> store_ok (run_db d cs)"
  by (induction cs arbitrary: d) (simp_all add: store_ok_call)

lemma store_ok_store_after: "store_ok (store_after hist)"
  by (simp add: store_after_def returning_def store_ok_run_db store_ok_init)

lemma strip_Nil: "strip [] = []"
  by (simp add: strip_def)

lemma labels_list_of_usable: "labels_list_of labels = usable_labels labels"
proof -
  have "(\<lambda>l. l \<noteq> [] \<and> strip l \<noteq> []) = (\<lambda>l. strip l \<noteq> [])"
    using strip_Nil by auto
  then show ?thesis
    by (simp add: labels_list_of_def usable_labels_def filter_map comp_def)
qed

lemma py_enumerate_zip: "py_enumerate k xs = zip [k..k + int (length xs) - 1] xs"
proof (induction xs arbitrary: k)
  case Nil
  then show ?case by simp
next
  case (Cons x xs)
  have "[k..k + int (length (x # xs)) - 1] = k # [k + 1..k + 1 + int (length xs) - 1]"
    by (subst upto_rec1) (simp_all add: algebra_simps)
  with Cons show ?case by simp
qed

lemma set_vote_options_ok:
  assumes "store_ok d" and "2 \<le> length (usable_labels labels)"
  shows "set_vote_options d labels =
           (\<lparr>vote_options = Some (zip [1..int (length (usable_labels labels))] (usable_labels labels)),
             votes = Some []\<rparr>,
            Inr (int (length (usable_labels labels))))"
  using assms
  by (auto simp add: set_vote_options_eq labels_list_of_usable store_ok_def py_enumerate_zip
      split: option.splits)

lemma set_vote_options_Inr:
  assumes "set_vote_options d labels = (d', Inr n)"
  shows "n = int (length (usable_labels labels)) \<and>
         d' = \<lparr>vote_options = Some (zip [1..n] (usable_labels labels)), votes = Some []\<rparr>"
  using assms
  by (auto simp add: set_vote_options_eq labels_list_of_usable py_enumerate_zip
      split: option.splits if_splits)

subsection \<open>Votes, one per user\<close>

lemma has_row_call:
  assumes "has_row u d" and "\<not> resets_votes c"
  shows "has_row u (fst (call d c))"
  using assms
  by (cases c)
    (auto simp add: returning_def has_row_def init_db_eq cast_vote_eq list_vote_options_db
      user_has_voted_db option_exists_db get_vote_standings_db get_total_votes_db
      get_vote_label_db split: option.splits)

lemma has_row_cast_fails:
  assumes "has_row u d"
  shows "\<exists>e. snd (cast_vote d u opt now) = Inl e"
  using assms by (auto simp add: has_row_def cast_vote_eq split: option.splits)

lemma cast_vote_gives_row:
  assumes "snd (cast_vote d u opt now) = Inr r"
  shows "has_row u (fst (cast_vote d u opt now))"
  using assms by (auto simp add: has_row_def cast_vote_eq split: option.splits if_splits)

lemma no_success_with_row:
  assumes "has_row u d" and "\<not> list_ex resets_votes cs"
  shows "successful_votes u d cs = 0"
  using assms
proof (induction cs arbitrary: d)
  case Nil
  then show ?case by (simp add: successful_votes_def)
next
  case (Cons c cs)
  from Cons.prems have nr: "\<not> resets_votes c" and rest: "\<not> list_ex resets_votes cs"
    by simp_all
  have "has_row u (fst (call d c))"
    using Cons.prems(1) nr by (rule has_row_call)
  then have ih: "successful_votes u (fst (call d c)) cs = 0"
    using rest by (rule Cons.IH)
  have "\<not> vote_succeeded u (c, snd (call d c))"
  proof (cases c)
    case (CastVote v opt now)
    show ?thesis
    proof (cases "v = u")
      case True
      with has_row_cast_fails [OF Cons.prems(1), of opt now] CastVote show ?thesis
        by (auto simp add: returning_def)
    next
      case False
      with CastVote show ?thesis
        by (cases "snd (cast_vote d v opt now)") (simp_all add: returning_def)
    qed
  qed simp_all
  with ih show ?case by (simp add: successful_votes_def)
qed

lemma at_most_one_success:
  assumes "\<not> list_ex resets_votes cs"
  shows "successful_votes u d cs \<le> 1"
  using assms
proof (induction cs arbitrary: d)
  case Nil
  then show ?case by (simp add: successful_votes_def)
next
  case (Cons c cs)
  from Cons.prems have rest: "\<not> list_ex resets_votes cs"
    by simp
  show ?case
  proof (cases "vote_succeeded u (c, snd (call d c))")
    case False
    with Cons.IH [OF rest, of "fst (call d c)"] show ?thesis
      by (simp add: successful_votes_def)
  next
    case True
    then obtain opt now r where c: "c = CastVote u opt now" and r: "snd (call d c) = Inr r"
      by (cases c; cases "snd (call d c)") auto
    from r c obtain r' where "snd (cast_vote d u opt now) = Inr r'"
      by (cases "snd (cast_vote d u opt now)") (simp_all add: returning_def)
    then have "has_row u (fst (cast_vote d u opt now))"
      by (rule cast_vote_gives_row)
    then have "has_row u (fst (call d c))"
      by (simp add: c returning_def)
    then have "successful_votes u (fst (call d c)) cs = 0"
      using rest by (rule no_success_with_row)
    with True show ?thesis by (simp add: successful_votes_def)
  qed
qed

lemma has_row_iff: "store_ok d \<Longrightarrow> has_row u d = (snd (user_has_voted d u) = Inr True)"
  by (auto simp add: has_row_def user_has_voted_eq store_ok_def split: option.splits)

lemma has_row_run_db:
  assumes "has_row u d" and "\<not> list_ex resets_votes cs"
  shows "has_row u (run_db d cs)"
  using assms by (induction cs arbitrary: d) (simp_all add: has_row_call)

lemma cast_vote_store_ok:
  assumes "store_ok d"
  shows "cast_vote d u opt now =
           (if snd (user_has_voted d u) = Inr True
            then (d, Inl (unique_failed ''votes.user_id''))
            else if snd (option_exists d opt) = Inr False
            then (d, Inl foreign_key_failed)
            else (d\<lparr>votes := map_option (\<lambda>vs. vs @ [(u, opt, now)]) (votes d)\<rparr>, Inr ()))"
  using assms
  by (auto simp add: cast_vote_eq user_has_voted_eq option_exists_eq store_ok_def
      split: option.splits)

lemma integrity_errors_differ: "unique_failed ''votes.user_id'' \<noteq> foreign_key_failed"
  by (simp add: unique_failed_def foreign_key_failed_def)

lemma list_vote_options_eq:
  "snd (list_vote_options d) =
     (case vote_options d of
        None \<Rightarrow> Inl (no_such_table ''vote_options'')
      | Some rows \<Rightarrow> Inr (sort_key fst rows))"
  by (simp add: list_vote_options_def with_connection_def connect_def query_def view_def
      select_options_def)

lemma get_vote_standings_eq:
  "snd (get_vote_standings d) =
     (case vote_options d of
        None \<Rightarrow> Inl (no_such_table ''vote_options'')
      | Some rows \<Rightarrow>
          (case votes d of
             None \<Rightarrow> Inl (no_such_table ''votes'')
           | Some vs \<Rightarrow> Inr (group_count (left_join rows vs))))"
  by (simp add: get_vote_standings_def with_connection_def connect_def then_exec_def
      pragma_foreign_keys_on_def query_def view_def select_standings_def split: option.splits)

lemma get_total_votes_eq:
  "snd (get_total_votes d) =
     (case votes d of
        None \<Rightarrow> Inl (no_such_table ''votes'')
      | Some vs \<Rightarrow> Inr (int (length vs)))"
  by (simp add: get_total_votes_def with_connection_def connect_def query_def view_def
      select_count_votes_def)

lemma vote_store_ok:
  assumes "store_ok d"
  shows "vote d u choice now =
           (if snd (user_has_voted d u) = Inr True
            then (d, Inr \<lparr>content = ''User has already voted'', ephemeral = False\<rparr>)
            else if snd (option_exists d choice) = Inr False
            then (case snd (list_vote_options d) of
                    Inl e \<Rightarrow> (d, Inl e)
                  | Inr opts \<Rightarrow>
                      if opts = []
                      then (d, Inr \<lparr>content =
                              ''No vote options have been set yet. An admin must run `/setvote` first.'',
                              ephemeral = True\<rparr>)
                      else (d, Inr \<lparr>content =
                              ''Invalid choice. Please vote using one of these numbers:''
                                @ [CHR 0x0A, CHR 0x0A] @ render_options opts,
                              ephemeral = True\<rparr>))
            else (fst (cast_vote d u choice now),
                  Inr \<lparr>content = ''Thank you for voting'', ephemeral = False\<rparr>))"
proof -
  from assms obtain rows vs where t: "vote_options d = Some rows" "votes d = Some vs"
    by (auto simp add: store_ok_def split: option.splits)
  have i: "init_db d = (d, Inr ())"
    using t by (simp add: init_db_eq)
  have h: "user_has_voted d u = (d, Inr (u \<in> set (map fst vs)))"
    using t user_has_voted_db [of d u] user_has_voted_eq [of d u]
    by (simp add: prod_eq_iff)
  have x: "option_exists d choice = (d, Inr (choice \<in> set (map fst rows)))"
    using t option_exists_db [of d choice] option_exists_eq [of d choice]
    by (simp add: prod_eq_iff)
  have l: "list_vote_options d = (d, Inr (sort_key fst rows))"
    using t
    by (simp add: list_vote_options_def with_connection_def connect_def query_def view_def
        select_options_def)
  show ?thesis
  proof (cases "u \<in> set (map fst vs)")
    case True
    then show ?thesis by (simp add: vote_def i h)
  next
    case False
    note nv = False
    show ?thesis
    proof (cases "choice \<in> set (map fst rows)")
      case False
      with nv show ?thesis by (simp add: vote_def i h x l)
    next
      case True
      with nv t have "cast_vote d u choice now = (d\<lparr>votes := Some (vs @ [(u, choice, now)])\<rparr>, Inr ())"
        by (simp add: cast_vote_eq)
      with nv True show ?thesis by (simp add: vote_def i h x)
    qed
  qed
qed

subsection \<open>The standings query\<close>

lemma left_join_Nil: "left_join [] vs = []"
  by (simp add: left_join_def)

lemma left_join_Cons: "left_join (r # rows) vs = block_of vs r @ left_join rows vs"
  by (simp add: left_join_def block_of_def)

lemma set_fst_block_of: "fst ` set (block_of vs r) = {r}"
  by (cases "filter (\<lambda>v. fst (snd v) = fst r) vs") (auto simp add: block_of_def)

lemma set_fst_left_join: "fst ` set (left_join rows vs) = set rows"
  by (induction rows) (simp_all add: left_join_Nil left_join_Cons image_Un set_fst_block_of)

lemma filter_joined:
  "filter (\<lambda>j. fst j = g \<and> snd j \<noteq> None) (map (\<lambda>v. (r, Some v)) xs) =
     (if r = g then map (\<lambda>v. (r, Some v)) xs else [])"
  by (induction xs) simp_all

lemma count_block_of:
  "length (filter (\<lambda>j. fst j = g \<and> snd j \<noteq> None) (block_of vs r)) =
     (if r = g then length (filter (\<lambda>v. fst (snd v) = fst g) vs) else 0)"
proof (cases "filter (\<lambda>v. fst (snd v) = fst r) vs")
  case Nil
  then show ?thesis by (auto simp add: block_of_def)
next
  case (Cons m ms)
  then have "length (filter (\<lambda>v. fst (snd v) = fst r) vs) = Suc (length ms)"
    by simp
  moreover have "block_of vs r = map (\<lambda>v. (r, Some v)) (m # ms)"
    using Cons by (simp add: block_of_def)
  ultimately show ?thesis
    by (simp only: filter_joined length_map split: if_splits) auto
qed

lemma count_left_join:
  assumes "distinct rows"
  shows "length (filter (\<lambda>j. fst j = g \<and> snd j \<noteq> None) (left_join rows vs)) =
           (if g \<in> set rows then length (filter (\<lambda>v. fst (snd v) = fst g) vs) else 0)"
  using assms
proof (induction rows)
  case Nil
  then show ?case by (simp add: left_join_Nil)
next
  case (Cons r rows)
  then have ih: "length (filter (\<lambda>j. fst j = g \<and> snd j \<noteq> None) (left_join rows vs)) =
                   (if g \<in> set rows then length (filter (\<lambda>v. fst (snd v) = fst g) vs) else 0)"
    and nr: "r \<notin> set rows"
    by simp_all
  have "length (filter (\<lambda>j. fst j = g \<and> snd j \<noteq> None) (left_join (r # rows) vs)) =
          length (filter (\<lambda>j. fst j = g \<and> snd j \<noteq> None) (block_of vs r)) +
          length (filter (\<lambda>j. fst j = g \<and> snd j \<noteq> None) (left_join rows vs))"
    by (simp add: left_join_Cons)
  also have "\<dots> = (if r = g then length (filter (\<lambda>v. fst (snd v) = fst g) vs) else 0) +
                   (if g \<in> set rows then length (filter (\<lambda>v. fst (snd v) = fst g) vs) else 0)"
    by (simp only: count_block_of ih)
  finally show ?case
    using nr by auto
qed

lemma sort_key_unique:
  assumes d: "distinct (map fst rows)" and s: "sorted (map fst rows)"
    and e: "set zs = set rows" and dz: "distinct zs"
  shows "sort_key fst zs = rows"
proof -
  let ?L = "sort_key fst zs"
  from d have inj: "inj_on fst (set rows)"
    by (simp add: distinct_map)
  have "distinct (map fst ?L)"
    using dz e inj by (simp add: distinct_map)
  moreover have "sorted (map fst ?L)"
    by (rule sorted_sort_key)
  moreover have "set (map fst ?L) = set (map fst rows)"
    using e by simp
  ultimately have "map fst ?L = map fst rows"
    using d s by (intro sorted_distinct_set_unique) simp_all
  moreover have "inj_on fst (set ?L \<union> set rows)"
    using inj e by simp
  ultimately show ?thesis
    by (simp add: inj_on_map_eq_map)
qed

lemma group_count_left_join:
  assumes d: "distinct (map fst rows)" and s: "sorted (map fst rows)"
  shows "group_count (left_join rows vs) =
           map (\<lambda>g. \<lparr>option_id = fst g, label = snd g,
                    vote_count = int (length (filter (\<lambda>v. fst (snd v) = fst g) vs))\<rparr>) rows"
proof -
  from d have dr: "distinct rows"
    by (simp add: distinct_map)
  have "sort_key fst (remdups (map fst (left_join rows vs))) = rows"
    using d s by (rule sort_key_unique) (simp_all add: set_fst_left_join)
  then show ?thesis
    by (simp add: group_count_def count_left_join [OF dr] del: not_None_eq)
qed

lemma sum_indicator:
  assumes "distinct (map fst rows)" and "k \<in> set (map fst rows)"
  shows "(\<Sum>r\<leftarrow>rows. if k = fst r then 1 else 0) = (1::int)"
  using assms
proof (induction rows)
  case Nil
  then show ?case by simp
next
  case (Cons r rows)
  show ?case
  proof (cases "k = fst r")
    case True
    with Cons.prems have "k \<notin> set (map fst rows)" by simp
    then have "(\<Sum>r\<leftarrow>rows. if k = fst r then 1 else 0) = (0::int)"
      by (induction rows) auto
    with True show ?thesis by simp
  next
    case False
    with Cons show ?thesis by simp
  qed
qed

lemma sum_counts:
  assumes "distinct (map fst rows)" and "set (map (\<lambda>v. fst (snd v)) vs) \<subseteq> set (map fst rows)"
  shows "(\<Sum>r\<leftarrow>rows. int (length (filter (\<lambda>v. fst (snd v) = fst r) vs))) = int (length vs)"
  using assms(2)
proof (induction vs)
  case Nil
  then show ?case by simp
next
  case (Cons v vs)
  then have k: "fst (snd v) \<in> set (map fst rows)"
    and ih: "(\<Sum>r\<leftarrow>rows. int (length (filter (\<lambda>v. fst (snd v) = fst r) vs))) = int (length vs)"
    by simp_all
  have "(\<Sum>r\<leftarrow>rows. int (length (filter (\<lambda>v. fst (snd v) = fst r) (v # vs)))) =
        (\<Sum>r\<leftarrow>rows. (if fst (snd v) = fst r then 1 else 0) +
                      int (length (filter (\<lambda>v. fst (snd v) = fst r) vs)))"
    by (rule arg_cong [where f = sum_list]) simp
  also have "\<dots> = (\<Sum>r\<leftarrow>rows. if fst (snd v) = fst r then 1 else 0) +
                   (\<Sum>r\<leftarrow>rows. int (length (filter (\<lambda>v. fst (snd v) = fst r) vs)))"
    by (simp add: sum_list_addf)
  also have "\<dots> = 1 + int (length vs)"
    using sum_indicator [OF assms(1) k] ih by simp
  finally show ?case by simp
qed

lemma rows_cast_Nil: "rows_cast [] rs = []"
  by (simp add: rows_cast_def)

lemma rows_cast_Cons:
  "rows_cast (c # cs) (r # rs) =
     (case (c, r) of (CastVote user_id opt now, Inr x) \<Rightarrow> [(user_id, opt, now)] | _ \<Rightarrow> [])
       @ rows_cast cs rs"
  by (simp add: rows_cast_def)

lemma run_db_votes:
  assumes "votes d = Some vs" and "vote_options d = Some rows" and "\<not> list_ex resets_votes cs"
  shows "votes (run_db d cs) = Some (vs @ rows_cast cs (run_replies d cs)) \<and>
         vote_options (run_db d cs) = Some rows"
  using assms
proof (induction cs arbitrary: d vs)
  case Nil
  then show ?case by (simp add: rows_cast_Nil)
next
  case (Cons c cs)
  from Cons.prems have nr: "\<not> resets_votes c" and rest: "\<not> list_ex resets_votes cs"
    by simp_all
  let ?d = "fst (call d c)"
  let ?new = "case (c, snd (call d c)) of
                (CastVote user_id opt now, Inr x) \<Rightarrow> [(user_id, opt, now)] | _ \<Rightarrow> []"
  have step: "votes ?d = Some (vs @ ?new) \<and> vote_options ?d = Some rows"
    using Cons.prems(1,2) nr
    by (cases c)
      (simp_all add: returning_def init_db_eq cast_vote_eq list_vote_options_db
        user_has_voted_db option_exists_db get_vote_standings_db get_total_votes_db
        get_vote_label_db split: sum.splits)
  then have "votes (run_db ?d cs) = Some ((vs @ ?new) @ rows_cast cs (run_replies ?d cs)) \<and>
             vote_options (run_db ?d cs) = Some rows"
    using rest by (intro Cons.IH) simp_all
  then show ?case
    by (simp add: rows_cast_Cons)
qed

lemma voters_of_rows:
  "[user_id. (CastVote user_id opt' now, Inr r) \<leftarrow> zs, opt' = opt] =
     map fst (filter (\<lambda>v. fst (snd v) = opt)
       [(user_id, opt', now). (CastVote user_id opt' now, Inr r) \<leftarrow> zs])"
  by (induction zs) (auto split: command.splits sum.splits)

lemma length_voters_for:
  assumes "distinct (map fst (rows_cast cs rs))"
  shows "length (voters_for opt cs rs) =
           length (filter (\<lambda>v. fst (snd v) = opt) (rows_cast cs rs))"
proof -
  have "distinct (map fst (filter (\<lambda>v. fst (snd v) = opt) (rows_cast cs rs)))"
    using assms by (rule distinct_map_filter)
  then have "remdups (map fst (filter (\<lambda>v. fst (snd v) = opt) (rows_cast cs rs))) =
               map fst (filter (\<lambda>v. fst (snd v) = opt) (rows_cast cs rs))"
    by (rule distinct_remdups_id)
  moreover have "voters_for opt cs rs =
                   remdups (map fst (filter (\<lambda>v. fst (snd v) = opt) (rows_cast cs rs)))"
    unfolding voters_for_def rows_cast_def by (simp only: voters_of_rows)
  ultimately show ?thesis
    by (simp add: distinct_remdups_id)
qed

section \<open>The claims\<close>

text \<open>
  In what follows \<open>unique_failed ''votes.user_id''\<close> is the specification's
  DuplicateVote, \<open>foreign_key_failed\<close> its UnknownOption and the \<open>ValueError\<close> of
  \<open>set_vote_options\<close> its InvalidInput. Calls run one after the other; what two
  connections do at the same moment is outside the model.
\<close>

subsection \<open>C1: one vote per user\<close>

text \<open>
  A poll generation lasts from one \<open>set_vote_options\<close> to the next, and \<open>clear_votes\<close>
  does not end it. After \<open>clear_votes\<close> a user who has voted votes again: in the run
  below, all within one generation, two calls \<open>cast_vote\<close> of user 42 succeed.
\<close>

theorem second_vote_after_clear_counterexample:
  "run_replies (store_after [SetVoteOptions [''Pizza'', ''Tacos'']])
     [CastVote 42 1 ''t1'', ClearVotes, CastVote 42 2 ''t2''] = [Inr Done, Inr Done, Inr Done]
   \<and> \<not> successful_votes 42 (store_after [SetVoteOptions [''Pizza'', ''Tacos'']])
         [CastVote 42 1 ''t1'', ClearVotes, CastVote 42 2 ''t2''] \<le> 1"
  by code_simp

text \<open>
  C1, amended. While a vote row exists for \<open>u\<close>, every \<open>cast_vote\<close> of \<open>u\<close> fails
  with the UNIQUE error of the primary key \<open>votes.user_id\<close> and the store is unchanged,
  whatever the option; the row stays as long as no command resets the votes
  (\<open>set_vote_options\<close> or \<open>clear_votes\<close>); a \<open>cast_vote\<close> that succeeds leaves a
  row for its user; so among commands without a reset at most one \<open>cast_vote\<close> of \<open>u\<close>
  succeeds. The primary key is what refuses the second row: \<open>cast_vote\<close> itself does
  not look before it inserts.
\<close>

theorem one_vote_until_reset:
  "(snd (user_has_voted (store_after hist) u) = Inr True \<longrightarrow>
      cast_vote (store_after hist) u opt now =
        (store_after hist, Inl (unique_failed ''votes.user_id'')))
   \<and> (snd (user_has_voted (store_after hist) u) = Inr True \<and> \<not> list_ex resets_votes cs \<longrightarrow>
      snd (user_has_voted (run_db (store_after hist) cs) u) = Inr True)
   \<and> (snd (cast_vote (store_after hist) v opt' now') = Inr () \<longrightarrow>
      snd (user_has_voted (fst (cast_vote (store_after hist) v opt' now')) v) = Inr True)
   \<and> (\<not> list_ex resets_votes cs \<longrightarrow> successful_votes u (store_after hist) cs \<le> 1)"
proof (intro conjI impI)
  have ok: "store_ok (store_after hist)"
    by (rule store_ok_store_after)
  {
    assume "snd (user_has_voted (store_after hist) u) = Inr True"
    then show "cast_vote (store_after hist) u opt now =
                 (store_after hist, Inl (unique_failed ''votes.user_id''))"
      by (simp add: cast_vote_store_ok [OF ok])
  next
    assume "snd (user_has_voted (store_after hist) u) = Inr True \<and> \<not> list_ex resets_votes cs"
    then have "has_row u (store_after hist)" and nr: "\<not> list_ex resets_votes cs"
      by (simp_all add: has_row_iff [OF ok])
    then have "has_row u (run_db (store_after hist) cs)"
      by (rule has_row_run_db)
    moreover have "store_ok (run_db (store_after hist) cs)"
      using ok by (rule store_ok_run_db)
    ultimately show "snd (user_has_voted (run_db (store_after hist) cs) u) = Inr True"
      by (simp add: has_row_iff)
  next
    assume "snd (cast_vote (store_after hist) v opt' now') = Inr ()"
    then have "has_row v (fst (cast_vote (store_after hist) v opt' now'))"
      by (rule cast_vote_gives_row)
    moreover have "store_ok (fst (cast_vote (store_after hist) v opt' now'))"
      using ok by (rule store_ok_cast_vote)
    ultimately show
      "snd (user_has_voted (fst (cast_vote (store_after hist) v opt' now')) v) = Inr True"
      by (simp add: has_row_iff)
  next
    assume "\<not> list_ex resets_votes cs"
    then show "successful_votes u (store_after hist) cs \<le> 1"
      by (rule at_most_one_success)
  }
qed

theorem one_vote_until_reset_witness:
  "snd (user_has_voted (store_after [SetVoteOptions [''Pizza'', ''Tacos''], CastVote 42 1 ''t1'']) 42) =
     Inr True
   \<and> \<not> list_ex resets_votes
         [CastVote 7 2 ''t2'', GetVoteStandings, CastVote 42 2 ''t3'', CastVote 7 1 ''t4'']
   \<and> snd (cast_vote (store_after [SetVoteOptions [''Pizza'', ''Tacos''], CastVote 42 1 ''t1''])
         7 2 ''t2'') = Inr ()
   \<and> cast_vote (store_after [SetVoteOptions [''Pizza'', ''Tacos''], CastVote 42 1 ''t1''])
         42 2 ''t3'' =
       (store_after [SetVoteOptions [''Pizza'', ''Tacos''], CastVote 42 1 ''t1''],
        Inl (unique_failed ''votes.user_id''))
   \<and> snd (user_has_voted
         (run_db (store_after [SetVoteOptions [''Pizza'', ''Tacos''], CastVote 42 1 ''t1''])
            [CastVote 7 2 ''t2'', GetVoteStandings, CastVote 42 2 ''t3'', CastVote 7 1 ''t4''])
         42) = Inr True
   \<and> snd (user_has_voted
         (fst (cast_vote (store_after [SetVoteOptions [''Pizza'', ''Tacos''], CastVote 42 1 ''t1''])
            7 2 ''t2'')) 7) = Inr True
   \<and> successful_votes 7 (store_after [SetVoteOptions [''Pizza'', ''Tacos''], CastVote 42 1 ''t1''])
         [CastVote 7 2 ''t2'', GetVoteStandings, CastVote 42 2 ''t3'', CastVote 7 1 ''t4''] = 1
   \<and> successful_votes 42 (store_after [SetVoteOptions [''Pizza'', ''Tacos''], CastVote 42 1 ''t1''])
         [CastVote 7 2 ''t2'', GetVoteStandings, CastVote 42 2 ''t3'', CastVote 7 1 ''t4''] \<le> 1"
proof -
  have h1: "snd (user_has_voted
              (store_after [SetVoteOptions [''Pizza'', ''Tacos''], CastVote 42 1 ''t1'']) 42) =
            Inr True"
    by code_simp
  have h2: "\<not> list_ex resets_votes
              [CastVote 7 2 ''t2'', GetVoteStandings, CastVote 42 2 ''t3'', CastVote 7 1 ''t4'']"
    by code_simp
  have h3: "snd (cast_vote (store_after [SetVoteOptions [''Pizza'', ''Tacos''], CastVote 42 1 ''t1''])
              7 2 ''t2'') = Inr ()"
    by code_simp
  have h4: "successful_votes 7
              (store_after [SetVoteOptions [''Pizza'', ''Tacos''], CastVote 42 1 ''t1''])
              [CastVote 7 2 ''t2'', GetVoteStandings, CastVote 42 2 ''t3'', CastVote 7 1 ''t4''] = 1"
    by code_simp
  from h1 h2 h3 h4
    one_vote_until_reset
      [of "[SetVoteOptions [''Pizza'', ''Tacos''], CastVote 42 1 ''t1'']" 42 2 "''t3''"
          "[CastVote 7 2 ''t2'', GetVoteStandings, CastVote 42 2 ''t3'', CastVote 7 1 ''t4'']"
          7 2 "''t2''"]
  show ?thesis by blast
qed

subsection \<open>C2: the standings\<close>

text \<open>
  C2. After any \<open>set_vote_options\<close> that succeeded and any commands that do not reset
  the votes (votes that succeed, votes that fail, reads), \<open>get_vote_standings\<close> returns
  exactly one row per option, the options with no vote included, in ascending order of
  \<open>option_id\<close>, the ids and labels being those of \<open>list_vote_options\<close>; the count of
  every row is the number of distinct users whose successful vote referenced the option;
  and \<open>get_total_votes\<close> returns the sum of the counts.
\<close>

theorem standings_tally:
  assumes "set_vote_options d labels = (d', Inr n)" and "\<not> list_ex resets_votes cs"
  shows "\<exists>rows.
           get_vote_standings (run_db d' cs) = (run_db d' cs, Inr rows)
         \<and> map (\<lambda>r. (option_id r, label r)) rows = zip [1..n] (usable_labels labels)
         \<and> map option_id rows = [1..n]
         \<and> snd (list_vote_options (run_db d' cs)) = Inr (map (\<lambda>r. (option_id r, label r)) rows)
         \<and> list_all (\<lambda>r. vote_count r =
                           int (length (voters_for (option_id r) cs (run_replies d' cs)))) rows
         \<and> get_total_votes (run_db d' cs) = (run_db d' cs, Inr (sum_list (map vote_count rows)))"
proof -
  let ?ls = "usable_labels labels"
  let ?opts = "zip [1..n] ?ls"
  let ?vs = "rows_cast cs (run_replies d' cs)"
  let ?count = "\<lambda>k. int (length (filter (\<lambda>v. fst (snd v) = k) ?vs))"
  let ?rows = "map (\<lambda>g. \<lparr>option_id = fst g, label = snd g, vote_count = ?count (fst g)\<rparr>) ?opts"
  from set_vote_options_Inr [OF assms(1)]
  have n: "n = int (length ?ls)" and d': "vote_options d' = Some ?opts" "votes d' = Some []"
    by simp_all
  from n have ids: "map fst ?opts = [1..n]"
    by (simp add: map_fst_zip)
  have "store_ok d'"
    using d' n ids by (simp add: store_ok_def)
  then have ok: "store_ok (run_db d' cs)"
    by (rule store_ok_run_db)
  from run_db_votes [OF d'(2) d'(1) assms(2)]
  have vs: "votes (run_db d' cs) = Some ?vs" and opts: "vote_options (run_db d' cs) = Some ?opts"
    by simp_all
  have "store_ok (run_db d' cs) =
          (map fst ?opts = [1..int (length ?opts)] \<and> distinct (map fst ?vs) \<and>
           set (map (\<lambda>v. fst (snd v)) ?vs) \<subseteq> set (map fst ?opts))"
    by (simp only: store_ok_def opts vs option.case)
  with ok have dv: "distinct (map fst ?vs)"
    and fk: "set (map (\<lambda>v. fst (snd v)) ?vs) \<subseteq> set (map fst ?opts)"
    by blast+
  have dist: "distinct (map fst ?opts)" and srt: "sorted (map fst ?opts)"
    by (simp_all only: ids distinct_upto sorted_upto)
  have st: "snd (get_vote_standings (run_db d' cs)) = Inr ?rows"
    by (simp only: get_vote_standings_eq opts vs option.case group_count_left_join [OF dist srt])
  have c1: "get_vote_standings (run_db d' cs) = (run_db d' cs, Inr ?rows)"
    using st get_vote_standings_db [of "run_db d' cs"] by (simp add: prod_eq_iff)
  have c2: "map (\<lambda>r. (option_id r, label r)) ?rows = ?opts"
    by (simp add: comp_def)
  have c3: "map option_id ?rows = [1..n]"
    using ids by (simp add: comp_def)
  have "sort_key fst ?opts = ?opts"
    using srt by (rule sort_key_id_if_sorted)
  then have c4: "snd (list_vote_options (run_db d' cs)) = Inr (map (\<lambda>r. (option_id r, label r)) ?rows)"
    by (simp only: c2 list_vote_options_eq opts option.case)
  have c5: "list_all (\<lambda>r. vote_count r =
                           int (length (voters_for (option_id r) cs (run_replies d' cs)))) ?rows"
    by (simp add: list_all_iff length_voters_for [OF dv])
  have "sum_list (map vote_count ?rows) = (\<Sum>g\<leftarrow>?opts. ?count (fst g))"
    by (simp add: comp_def)
  also have "\<dots> = int (length ?vs)"
    using dist fk by (rule sum_counts)
  finally have "snd (get_total_votes (run_db d' cs)) = Inr (sum_list (map vote_count ?rows))"
    by (simp add: get_total_votes_eq vs)
  then have c6: "get_total_votes (run_db d' cs) = (run_db d' cs, Inr (sum_list (map vote_count ?rows)))"
    using get_total_votes_db [of "run_db d' cs"] by (simp add: prod_eq_iff)
  from c1 c2 c3 c4 c5 c6 show ?thesis
    by blast
qed

theorem standings_tally_witness:
  "set_vote_options (store_after []) [''Pizza'', ''Tacos''] =
     (\<lparr>vote_options = Some [(1, ''Pizza''), (2, ''Tacos'')], votes = Some []\<rparr>, Inr 2)
   \<and> \<not> list_ex resets_votes
         [CastVote 42 1 ''t1'', CastVote 42 2 ''t2'', CastVote 7 1 ''t3'', CastVote 8 99 ''t4'',
          GetTotalVotes, CastVote 9 2 ''t5'']
   \<and> get_vote_standings
       (run_db \<lparr>vote_options = Some [(1, ''Pizza''), (2, ''Tacos'')], votes = Some []\<rparr>
          [CastVote 42 1 ''t1'', CastVote 42 2 ''t2'', CastVote 7 1 ''t3'', CastVote 8 99 ''t4'',
           GetTotalVotes, CastVote 9 2 ''t5'']) =
       (\<lparr>vote_options = Some [(1, ''Pizza''), (2, ''Tacos'')],
         votes = Some [(42, 1, ''t1''), (7, 1, ''t3''), (9, 2, ''t5'')]\<rparr>,
        Inr [\<lparr>option_id = 1, label = ''Pizza'', vote_count = 2\<rparr>,
             \<lparr>option_id = 2, label = ''Tacos'', vote_count = 1\<rparr>])
   \<and> voters_for 1
         [CastVote 42 1 ''t1'', CastVote 42 2 ''t2'', CastVote 7 1 ''t3'', CastVote 8 99 ''t4'',
          GetTotalVotes, CastVote 9 2 ''t5'']
         (run_replies \<lparr>vote_options = Some [(1, ''Pizza''), (2, ''Tacos'')], votes = Some []\<rparr>
            [CastVote 42 1 ''t1'', CastVote 42 2 ''t2'', CastVote 7 1 ''t3'', CastVote 8 99 ''t4'',
             GetTotalVotes, CastVote 9 2 ''t5'']) = [42, 7]
   \<and> (\<exists>rows.
         get_vote_standings
           (run_db \<lparr>vote_options = Some [(1, ''Pizza''), (2, ''Tacos'')], votes = Some []\<rparr>
              [CastVote 42 1 ''t1'', CastVote 42 2 ''t2'', CastVote 7 1 ''t3'', CastVote 8 99 ''t4'',
               GetTotalVotes, CastVote 9 2 ''t5'']) =
           (run_db \<lparr>vote_options = Some [(1, ''Pizza''), (2, ''Tacos'')], votes = Some []\<rparr>
              [CastVote 42 1 ''t1'', CastVote 42 2 ''t2'', CastVote 7 1 ''t3'', CastVote 8 99 ''t4'',
               GetTotalVotes, CastVote 9 2 ''t5''], Inr rows)
       \<and> map option_id rows = [1..2]
       \<and> list_all (\<lambda>r. vote_count r =
             int (length (voters_for (option_id r)
               [CastVote 42 1 ''t1'', CastVote 42 2 ''t2'', CastVote 7 1 ''t3'', CastVote 8 99 ''t4'',
                GetTotalVotes, CastVote 9 2 ''t5'']
               (run_replies \<lparr>vote_options = Some [(1, ''Pizza''), (2, ''Tacos'')], votes = Some []\<rparr>
                  [CastVote 42 1 ''t1'', CastVote 42 2 ''t2'', CastVote 7 1 ''t3'',
                   CastVote 8 99 ''t4'', GetTotalVotes, CastVote 9 2 ''t5''])))) rows
       \<and> get_total_votes
           (run_db \<lparr>vote_options = Some [(1, ''Pizza''), (2, ''Tacos'')], votes = Some []\<rparr>
              [CastVote 42 1 ''t1'', CastVote 42 2 ''t2'', CastVote 7 1 ''t3'', CastVote 8 99 ''t4'',
               GetTotalVotes, CastVote 9 2 ''t5'']) =
           (run_db \<lparr>vote_options = Some [(1, ''Pizza''), (2, ''Tacos'')], votes = Some []\<rparr>
              [CastVote 42 1 ''t1'', CastVote 42 2 ''t2'', CastVote 7 1 ''t3'', CastVote 8 99 ''t4'',
               GetTotalVotes, CastVote 9 2 ''t5''], Inr (sum_list (map vote_count rows))))"
proof -
  have h1: "set_vote_options (store_after []) [''Pizza'', ''Tacos''] =
     (\<lparr>vote_options = Some [(1, ''Pizza''), (2, ''Tacos'')], votes = Some []\<rparr>, Inr 2)"
    by code_simp
  have h2: "\<not> list_ex resets_votes
         [CastVote 42 1 ''t1'', CastVote 42 2 ''t2'', CastVote 7 1 ''t3'', CastVote 8 99 ''t4'',
          GetTotalVotes, CastVote 9 2 ''t5'']"
    by code_simp
  have h3: "get_vote_standings
       (run_db \<lparr>vote_options = Some [(1, ''Pizza''), (2, ''Tacos'')], votes = Some []\<rparr>
          [CastVote 42 1 ''t1'', CastVote 42 2 ''t2'', CastVote 7 1 ''t3'', CastVote 8 99 ''t4'',
           GetTotalVotes, CastVote 9 2 ''t5'']) =
       (\<lparr>vote_options = Some [(1, ''Pizza''), (2, ''Tacos'')],
         votes = Some [(42, 1, ''t1''), (7, 1, ''t3''), (9, 2, ''t5'')]\<rparr>,
        Inr [\<lparr>option_id = 1, label = ''Pizza'', vote_count = 2\<rparr>,
             \<lparr>option_id = 2, label = ''Tacos'', vote_count = 1\<rparr>])"
    by code_simp
  have h4: "voters_for 1
         [CastVote 42 1 ''t1'', CastVote 42 2 ''t2'', CastVote 7 1 ''t3'', CastVote 8 99 ''t4'',
          GetTotalVotes, CastVote 9 2 ''t5'']
         (run_replies \<lparr>vote_options = Some [(1, ''Pizza''), (2, ''Tacos'')], votes = Some []\<rparr>
            [CastVote 42 1 ''t1'', CastVote 42 2 ''t2'', CastVote 7 1 ''t3'', CastVote 8 99 ''t4'',
             GetTotalVotes, CastVote 9 2 ''t5'']) = [42, 7]"
    by code_simp
  from standings_tally [OF h1 h2] obtain rows where
    "get_vote_standings
           (run_db \<lparr>vote_options = Some [(1, ''Pizza''), (2, ''Tacos'')], votes = Some []\<rparr>
              [CastVote 42 1 ''t1'', CastVote 42 2 ''t2'', CastVote 7 1 ''t3'', CastVote 8 99 ''t4'',
               GetTotalVotes, CastVote 9 2 ''t5'']) =
           (run_db \<lparr>vote_options = Some [(1, ''Pizza''), (2, ''Tacos'')], votes = Some []\<rparr>
              [CastVote 42 1 ''t1'', CastVote 42 2 ''t2'', CastVote 7 1 ''t3'', CastVote 8 99 ''t4'',
               GetTotalVotes, CastVote 9 2 ''t5''], Inr rows)"
    and "map option_id rows = [1..2]"
    and "list_all (\<lambda>r. vote_count r =
             int (length (voters_for (option_id r)
               [CastVote 42 1 ''t1'', CastVote 42 2 ''t2'', CastVote 7 1 ''t3'', CastVote 8 99 ''t4'',
                GetTotalVotes, CastVote 9 2 ''t5'']
               (run_replies \<lparr>vote_options = Some [(1, ''Pizza''), (2, ''Tacos'')], votes = Some []\<rparr>
                  [CastVote 42 1 ''t1'', CastVote 42 2 ''t2'', CastVote 7 1 ''t3'',
                   CastVote 8 99 ''t4'', GetTotalVotes, CastVote 9 2 ''t5''])))) rows"
    and "get_total_votes
           (run_db \<lparr>vote_options = Some [(1, ''Pizza''), (2, ''Tacos'')], votes = Some []\<rparr>
              [CastVote 42 1 ''t1'', CastVote 42 2 ''t2'', CastVote 7 1 ''t3'', CastVote 8 99 ''t4'',
               GetTotalVotes, CastVote 9 2 ''t5'']) =
           (run_db \<lparr>vote_options = Some [(1, ''Pizza''), (2, ''Tacos'')], votes = Some []\<rparr>
              [CastVote 42 1 ''t1'', CastVote 42 2 ''t2'', CastVote 7 1 ''t3'', CastVote 8 99 ''t4'',
               GetTotalVotes, CastVote 9 2 ''t5''], Inr (sum_list (map vote_count rows)))"
    by blast
  with h1 h2 h3 h4 show ?thesis
    by blast
qed

subsection \<open>C3: the two ways a vote fails\<close>

text \<open>
  A call cannot fail in two ways. When the user has voted and the option does not
  exist, \<open>cast_vote\<close> fails with the UNIQUE error of the primary key and not with the
  FOREIGN KEY error, as below for user 42 and option 99.
\<close>

theorem unknown_option_by_voter_counterexample:
  "snd (option_exists
     (store_after [SetVoteOptions [''Pizza'', ''Tacos''], CastVote 42 1 ''t1'']) 99) = Inr False
   \<and> snd (cast_vote
     (store_after [SetVoteOptions [''Pizza'', ''Tacos''], CastVote 42 1 ''t1'']) 42 99 ''t2'') =
       Inl (unique_failed ''votes.user_id'')
   \<and> snd (cast_vote
     (store_after [SetVoteOptions [''Pizza'', ''Tacos''], CastVote 42 1 ''t1'']) 42 99 ''t2'') \<noteq>
       Inl foreign_key_failed"
  by code_simp

text \<open>
  C3, amended. On every store of the program, \<open>cast_vote\<close> fails with the UNIQUE error
  on \<open>votes.user_id\<close> when a vote row exists for the user, whether the option exists
  or not, and the handler of \<open>/vote\<close> answers "User has already voted"; it fails with
  the FOREIGN KEY error when the user has no vote row and the option does not exist,
  and the handler answers with another message, shown to the user alone; in both cases
  the store is unchanged. The two exceptions are both \<open>sqlite3.IntegrityError\<close> and
  differ in their message.
\<close>

theorem cast_vote_failure_kinds:
  "(snd (user_has_voted (store_after hist) u) = Inr True \<longrightarrow>
      cast_vote (store_after hist) u opt now =
        (store_after hist, Inl (unique_failed ''votes.user_id'')) \<and>
      vote (store_after hist) u opt now =
        (store_after hist, Inr \<lparr>content = ''User has already voted'', ephemeral = False\<rparr>))
   \<and> (snd (user_has_voted (store_after hist) v) = Inr False \<and>
       snd (option_exists (store_after hist) opt) = Inr False \<longrightarrow>
      cast_vote (store_after hist) v opt now = (store_after hist, Inl foreign_key_failed) \<and>
      fst (vote (store_after hist) v opt now) = store_after hist \<and>
      (\<exists>r. snd (vote (store_after hist) v opt now) = Inr r \<and> ephemeral r \<and>
           content r \<noteq> ''User has already voted'' \<and> content r \<noteq> ''Thank you for voting''))
   \<and> unique_failed ''votes.user_id'' \<noteq> foreign_key_failed"
proof (intro conjI impI)
  have ok: "store_ok (store_after hist)"
    by (rule store_ok_store_after)
  {
    assume "snd (user_has_voted (store_after hist) u) = Inr True"
    then show "cast_vote (store_after hist) u opt now =
                 (store_after hist, Inl (unique_failed ''votes.user_id''))"
      and "vote (store_after hist) u opt now =
             (store_after hist, Inr \<lparr>content = ''User has already voted'', ephemeral = False\<rparr>)"
      by (simp_all add: cast_vote_store_ok [OF ok] vote_store_ok [OF ok])
  next
    assume a: "snd (user_has_voted (store_after hist) v) = Inr False \<and>
               snd (option_exists (store_after hist) opt) = Inr False"
    then show "cast_vote (store_after hist) v opt now = (store_after hist, Inl foreign_key_failed)"
      by (simp add: cast_vote_store_ok [OF ok])
    obtain rows where "vote_options (store_after hist) = Some rows"
      using ok by (auto simp add: store_ok_def split: option.splits)
    then have l: "snd (list_vote_options (store_after hist)) = Inr (sort_key fst rows)"
      by (simp add: list_vote_options_def with_connection_def connect_def query_def view_def
          select_options_def)
    from a l show "fst (vote (store_after hist) v opt now) = store_after hist"
      by (simp add: vote_store_ok [OF ok])
    from a l show "\<exists>r. snd (vote (store_after hist) v opt now) = Inr r \<and> ephemeral r \<and>
           content r \<noteq> ''User has already voted'' \<and> content r \<noteq> ''Thank you for voting''"
      by (simp add: vote_store_ok [OF ok])
  next
    show "unique_failed ''votes.user_id'' \<noteq> foreign_key_failed"
      by (rule integrity_errors_differ)
  }
qed

theorem cast_vote_failure_kinds_witness:
  "snd (user_has_voted
     (store_after [SetVoteOptions [''Pizza'', ''Tacos''], CastVote 42 1 ''t1'']) 42) = Inr True
   \<and> snd (user_has_voted
     (store_after [SetVoteOptions [''Pizza'', ''Tacos''], CastVote 42 1 ''t1'']) 7) = Inr False
   \<and> snd (option_exists
     (store_after [SetVoteOptions [''Pizza'', ''Tacos''], CastVote 42 1 ''t1'']) 99) = Inr False
   \<and> cast_vote
       (store_after [SetVoteOptions [''Pizza'', ''Tacos''], CastVote 42 1 ''t1'']) 42 99 ''t2'' =
       (store_after [SetVoteOptions [''Pizza'', ''Tacos''], CastVote 42 1 ''t1''],
        Inl (unique_failed ''votes.user_id''))
   \<and> vote
       (store_after [SetVoteOptions [''Pizza'', ''Tacos''], CastVote 42 1 ''t1'']) 42 99 ''t2'' =
       (store_after [SetVoteOptions [''Pizza'', ''Tacos''], CastVote 42 1 ''t1''],
        Inr \<lparr>content = ''User has already voted'', ephemeral = False\<rparr>)
   \<and> cast_vote
       (store_after [SetVoteOptions [''Pizza'', ''Tacos''], CastVote 42 1 ''t1'']) 7 99 ''t2'' =
       (store_after [SetVoteOptions [''Pizza'', ''Tacos''], CastVote 42 1 ''t1''],
        Inl foreign_key_failed)
   \<and> snd (vote
       (store_after [SetVoteOptions [''Pizza'', ''Tacos''], CastVote 42 1 ''t1'']) 7 99 ''t2'') =
       Inr \<lparr>content = ''Invalid choice. Please vote using one of these numbers:''
                @ [CHR 0x0A, CHR 0x0A] @ ''1. Pizza'' @ [CHR 0x0A] @ ''2. Tacos'',
            ephemeral = True\<rparr>"
proof -
  have h1: "snd (user_has_voted
     (store_after [SetVoteOptions [''Pizza'', ''Tacos''], CastVote 42 1 ''t1'']) 42) = Inr True"
    by code_simp
  have h2: "snd (user_has_voted
     (store_after [SetVoteOptions [''Pizza'', ''Tacos''], CastVote 42 1 ''t1'']) 7) = Inr False"
    by code_simp
  have h3: "snd (option_exists
     (store_after [SetVoteOptions [''Pizza'', ''Tacos''], CastVote 42 1 ''t1'']) 99) = Inr False"
    by code_simp
  have h4: "snd (vote
       (store_after [SetVoteOptions [''Pizza'', ''Tacos''], CastVote 42 1 ''t1'']) 7 99 ''t2'') =
       Inr \<lparr>content = ''Invalid choice. Please vote using one of these numbers:''
                @ [CHR 0x0A, CHR 0x0A] @ ''1. Pizza'' @ [CHR 0x0A] @ ''2. Tacos'',
            ephemeral = True\<rparr>"
    by code_simp
  from h1 h2 h3 h4
    cast_vote_failure_kinds
      [of "[SetVoteOptions [''Pizza'', ''Tacos''], CastVote 42 1 ''t1'']" 42 99 "''t2''" 7]
  show ?thesis by blast
qed

subsection \<open>C4: too few labels\<close>

text \<open>
  C4. Whenever fewer than 2 non-empty labels remain after trimming whitespace and
  discarding empty entries, \<open>set_vote_options\<close> raises \<open>ValueError\<close> and the store is
  exactly what it was: the options and the votes of any prior state are untouched.
\<close>

theorem set_vote_options_rejects_short_lists:
  assumes "length (usable_labels labels) < 2"
  shows "set_vote_options d labels =
           (d, Inl (ValueError ''At least 2 non-empty vote options are required.''))"
  using assms by (simp add: set_vote_options_eq labels_list_of_usable)

theorem set_vote_options_rejects_short_lists_witness:
  "length (usable_labels [''only one'']) < 2 \<and>
   set_vote_options
     (store_after [SetVoteOptions [''Pizza'', ''Tacos''], CastVote 42 1 ''t1'']) [''only one''] =
     (store_after [SetVoteOptions [''Pizza'', ''Tacos''], CastVote 42 1 ''t1''],
      Inl (ValueError ''At least 2 non-empty vote options are required.''))"
proof -
  have h: "length (usable_labels [''only one'']) < 2"
    by code_simp
  from h set_vote_options_rejects_short_lists [OF h] show ?thesis
    by (rule conjI)
qed

subsection \<open>C5: a new poll\<close>

text \<open>
  C5. A call of \<open>set_vote_options\<close> that succeeds, on any store, leaves no vote row
  and exactly the usable labels as option rows, with the ids \<open>1..N\<close> in the order
  submitted, and returns \<open>N\<close>; on a store of the program it succeeds whenever two
  usable labels are given. After every sequence of operations the option ids of the
  store are \<open>1..N\<close> in row order, without a gap.
\<close>

theorem set_vote_options_replaces_poll:
  "(set_vote_options d labels = (d', Inr n) \<longrightarrow>
      n = int (length (usable_labels labels)) \<and>
      vote_options d' = Some (zip [1..n] (usable_labels labels)) \<and>
      votes d' = Some [])
   \<and> (2 \<le> length (usable_labels labels) \<longrightarrow>
      snd (set_vote_options (store_after hist) labels) = Inr (int (length (usable_labels labels))))
   \<and> (\<exists>rows. vote_options (store_after hist) = Some rows \<and>
         map fst rows = [1..int (length rows)])"
proof (intro conjI impI)
  assume "set_vote_options d labels = (d', Inr n)"
  from set_vote_options_Inr [OF this]
  show "n = int (length (usable_labels labels))"
    and "vote_options d' = Some (zip [1..n] (usable_labels labels))"
    and "votes d' = Some []"
    by simp_all
next
  assume "2 \<le> length (usable_labels labels)"
  then show "snd (set_vote_options (store_after hist) labels) =
               Inr (int (length (usable_labels labels)))"
    by (simp add: set_vote_options_ok store_ok_store_after)
next
  from store_ok_store_after [of hist]
  show "\<exists>rows. vote_options (store_after hist) = Some rows \<and>
          map fst rows = [1..int (length rows)]"
    by (auto simp add: store_ok_def split: option.splits)
qed

theorem set_vote_options_replaces_poll_witness:
  "set_vote_options
     (store_after [SetVoteOptions [''Pizza'', ''Tacos''], CastVote 42 1 ''t1''])
     [''Sushi'', '' Burgers '', '''', ''Salad''] =
     (\<lparr>vote_options = Some [(1, ''Sushi''), (2, ''Burgers''), (3, ''Salad'')],
       votes = Some []\<rparr>, Inr 3)
   \<and> 2 \<le> length (usable_labels [''Sushi'', '' Burgers '', '''', ''Salad''])
   \<and> (3::int) = int (length (usable_labels [''Sushi'', '' Burgers '', '''', ''Salad'']))
   \<and> Some [(1::int, ''Sushi''), (2, ''Burgers''), (3, ''Salad'')] =
       Some (zip [1..3] (usable_labels [''Sushi'', '' Burgers '', '''', ''Salad'']))
   \<and> snd (set_vote_options
            (store_after [SetVoteOptions [''Pizza'', ''Tacos''], CastVote 42 1 ''t1''])
            [''Sushi'', '' Burgers '', '''', ''Salad'']) =
       Inr (int (length (usable_labels [''Sushi'', '' Burgers '', '''', ''Salad''])))
   \<and> (\<exists>rows. vote_options
                (store_after [SetVoteOptions [''Pizza'', ''Tacos''], CastVote 42 1 ''t1'']) =
                Some rows \<and> map fst rows = [1..int (length rows)])"
proof -
  have h1: "set_vote_options
              (store_after [SetVoteOptions [''Pizza'', ''Tacos''], CastVote 42 1 ''t1''])
              [''Sushi'', '' Burgers '', '''', ''Salad''] =
            (\<lparr>vote_options = Some [(1, ''Sushi''), (2, ''Burgers''), (3, ''Salad'')],
              votes = Some []\<rparr>, Inr 3)"
    by code_simp
  have h2: "2 \<le> length (usable_labels [''Sushi'', '' Burgers '', '''', ''Salad''])"
    by code_simp
  from h1 h2
    set_vote_options_replaces_poll
      [of "store_after [SetVoteOptions [''Pizza'', ''Tacos''], CastVote 42 1 ''t1'']"
          "[''Sushi'', '' Burgers '', '''', ''Salad'']"
          "\<lparr>vote_options = Some [(1, ''Sushi''), (2, ''Burgers''), (3, ''Salad'')],
            votes = Some []\<rparr>"
          3
          "[SetVoteOptions [''Pizza'', ''Tacos''], CastVote 42 1 ''t1'']"]
  show ?thesis by simp
qed

subsection \<open>C6: votes reference options\<close>

text \<open>
  A vote for an option that does not exist, by a user who has voted, is refused by the
  primary key, not by the foreign key: below, user 7 has voted and option 0 does not
  exist.
\<close>

theorem unknown_option_not_reported_counterexample:
  "snd (option_exists
     (store_after [SetVoteOptions [''Sushi'', ''Burgers'', ''Salad''], CastVote 7 3 ''t1'']) 0) =
     Inr False
   \<and> cast_vote
     (store_after [SetVoteOptions [''Sushi'', ''Burgers'', ''Salad''], CastVote 7 3 ''t1''])
     7 0 ''t2'' \<noteq>
     (store_after [SetVoteOptions [''Sushi'', ''Burgers'', ''Salad''], CastVote 7 3 ''t1''],
      Inl foreign_key_failed)"
  by code_simp

text \<open>
  C6, amended. On every store of the program every vote row references an option row
  of the store; \<open>cast_vote\<close> succeeds only for an option that exists; and a
  \<open>cast_vote\<close> for an option that does not exist fails and leaves the store as it
  was, with the FOREIGN KEY error when the user has no vote row and with the UNIQUE
  error of the primary key when the user has one.
\<close>

theorem votes_reference_options:
  "(\<exists>vs. votes (store_after hist) = Some vs \<and>
      list_all (\<lambda>r. snd (option_exists (store_after hist) (fst (snd r))) = Inr True) vs)
   \<and> (snd (cast_vote (store_after hist) u opt now) = Inr () \<longrightarrow>
      snd (option_exists (store_after hist) opt) = Inr True)
   \<and> (snd (option_exists (store_after hist) opt') = Inr False \<longrightarrow>
      cast_vote (store_after hist) v opt' now' =
        (store_after hist,
         Inl (if snd (user_has_voted (store_after hist) v) = Inr True
              then unique_failed ''votes.user_id'' else foreign_key_failed)))"
proof (intro conjI impI)
  have ok: "store_ok (store_after hist)"
    by (rule store_ok_store_after)
  {
    from ok show "\<exists>vs. votes (store_after hist) = Some vs \<and>
      list_all (\<lambda>r. snd (option_exists (store_after hist) (fst (snd r))) = Inr True) vs"
      by (auto simp add: store_ok_def option_exists_eq list_all_iff split: option.splits)
  next
    assume "snd (cast_vote (store_after hist) u opt now) = Inr ()"
    then show "snd (option_exists (store_after hist) opt) = Inr True"
      by (auto simp add: cast_vote_eq option_exists_eq split: option.splits if_splits)
  next
    assume "snd (option_exists (store_after hist) opt') = Inr False"
    then show "cast_vote (store_after hist) v opt' now' =
        (store_after hist,
         Inl (if snd (user_has_voted (store_after hist) v) = Inr True
              then unique_failed ''votes.user_id'' else foreign_key_failed))"
      by (simp add: cast_vote_store_ok [OF ok])
  }
qed

theorem votes_reference_options_witness:
  "snd (cast_vote
     (store_after [SetVoteOptions [''Sushi'', ''Burgers'', ''Salad''], CastVote 7 3 ''t1''])
     42 1 ''t2'') = Inr ()
   \<and> snd (option_exists
     (store_after [SetVoteOptions [''Sushi'', ''Burgers'', ''Salad''], CastVote 7 3 ''t1'']) 99) =
     Inr False
   \<and> votes (store_after [SetVoteOptions [''Sushi'', ''Burgers'', ''Salad''], CastVote 7 3 ''t1'']) =
     Some [(7, 3, ''t1'')]
   \<and> snd (option_exists
     (store_after [SetVoteOptions [''Sushi'', ''Burgers'', ''Salad''], CastVote 7 3 ''t1'']) 1) =
     Inr True
   \<and> cast_vote
     (store_after [SetVoteOptions [''Sushi'', ''Burgers'', ''Salad''], CastVote 7 3 ''t1''])
     42 99 ''t3'' =
     (store_after [SetVoteOptions [''Sushi'', ''Burgers'', ''Salad''], CastVote 7 3 ''t1''],
      Inl foreign_key_failed)"
proof -
  have h1: "snd (cast_vote
     (store_after [SetVoteOptions [''Sushi'', ''Burgers'', ''Salad''], CastVote 7 3 ''t1''])
     42 1 ''t2'') = Inr ()"
    by code_simp
  have h2: "snd (option_exists
     (store_after [SetVoteOptions [''Sushi'', ''Burgers'', ''Salad''], CastVote 7 3 ''t1'']) 99) =
     Inr False"
    by code_simp
  have h3: "votes (store_after [SetVoteOptions [''Sushi'', ''Burgers'', ''Salad''], CastVote 7 3 ''t1'']) =
     Some [(7, 3, ''t1'')]"
    by code_simp
  have h4: "snd (user_has_voted
     (store_after [SetVoteOptions [''Sushi'', ''Burgers'', ''Salad''], CastVote 7 3 ''t1'']) 42) \<noteq>
     Inr True"
    by code_simp
  from h1 h2 h3 h4
    votes_reference_options
      [of "[SetVoteOptions [''Sushi'', ''Burgers'', ''Salad''], CastVote 7 3 ''t1'']"
          42 1 "''t2''" 99 42 "''t3''"]
  show ?thesis by simp
qed

subsection \<open>C7: clearing the votes\<close>

text \<open>
  C7. \<open>clear_votes\<close> never fails, leaves no vote row and leaves the option rows as they
  were, on every store; doing it again changes nothing. On every store of the program
  it returns what deleting the rows of \<open>votes\<close> returns and leaves the same content:
  dropping the table and creating it again cannot be told from the row deletion.
\<close>

theorem clear_votes_deletes_rows_only:
  "clear_votes (store_after hist) = delete_all_votes (store_after hist)
   \<and> snd (clear_votes d) = Inr ()
   \<and> votes (fst (clear_votes d)) = Some []
   \<and> vote_options (fst (clear_votes d)) = vote_options d
   \<and> clear_votes (fst (clear_votes d)) = (fst (clear_votes d), Inr ())"
proof -
  obtain vs where "votes (store_after hist) = Some vs"
    using store_ok_store_after [of hist] by (auto simp add: store_ok_def split: option.splits)
  then have "delete_all_votes (store_after hist) = ((store_after hist)\<lparr>votes := Some []\<rparr>, Inr ())"
    by (simp add: delete_all_votes_def with_connection_def connect_def then_exec_def dml_def
        view_def delete_from_votes_def commit_def)
  then show ?thesis by (simp add: clear_votes_eq)
qed

theorem clear_votes_deletes_rows_only_witness:
  "clear_votes (store_after [SetVoteOptions [''Pizza'', ''Tacos''], CastVote 42 1 ''t1'']) =
     (\<lparr>vote_options = Some [(1, ''Pizza''), (2, ''Tacos'')], votes = Some []\<rparr>, Inr ())
   \<and> clear_votes (store_after [SetVoteOptions [''Pizza'', ''Tacos''], CastVote 42 1 ''t1'']) =
     delete_all_votes (store_after [SetVoteOptions [''Pizza'', ''Tacos''], CastVote 42 1 ''t1''])"
proof -
  have e: "clear_votes (store_after [SetVoteOptions [''Pizza'', ''Tacos''], CastVote 42 1 ''t1'']) =
     (\<lparr>vote_options = Some [(1, ''Pizza''), (2, ''Tacos'')], votes = Some []\<rparr>, Inr ())"
    by code_simp
  from e clear_votes_deletes_rows_only
      [of "[SetVoteOptions [''Pizza'', ''Tacos''], CastVote 42 1 ''t1'']"]
  show ?thesis by blast
qed

subsection \<open>C8: the same poll twice\<close>

text \<open>
  C8. For a label list with at least two usable labels, whatever happened to the store
  before the first call and whatever is done between the two calls, the second
  \<open>set_vote_options\<close> leaves the option rows that the first call left, no vote row,
  and returns the same count.
\<close>

theorem set_vote_options_twice:
  assumes "2 \<le> length (usable_labels labels)"
  shows "vote_options (fst (set_vote_options
            (run_db (fst (set_vote_options (store_after before) labels)) between) labels)) =
         vote_options (fst (set_vote_options (store_after before) labels))
       \<and> votes (fst (set_vote_options
            (run_db (fst (set_vote_options (store_after before) labels)) between) labels)) = Some []
       \<and> snd (set_vote_options
            (run_db (fst (set_vote_options (store_after before) labels)) between) labels) =
         snd (set_vote_options (store_after before) labels)
       \<and> snd (set_vote_options (store_after before) labels) =
         Inr (int (length (usable_labels labels)))"
proof -
  have ok1: "store_ok (store_after before)"
    by (rule store_ok_store_after)
  then have "store_ok (fst (set_vote_options (store_after before) labels))"
    by (rule store_ok_set_vote_options)
  then have ok2: "store_ok (run_db (fst (set_vote_options (store_after before) labels)) between)"
    by (rule store_ok_run_db)
  note e2 = set_vote_options_ok [OF ok2 assms]
  note e1 = set_vote_options_ok [OF ok1 assms]
  show ?thesis
    unfolding e2 unfolding e1 by simp
qed

theorem set_vote_options_twice_witness:
  "2 \<le> length (usable_labels [''Pizza'', ''Tacos''])
   \<and> vote_options (fst (set_vote_options
        (run_db (fst (set_vote_options (store_after [CastVote 5 1 ''t0'']) [''Pizza'', ''Tacos'']))
           [CastVote 42 1 ''t1'', CastVote 7 2 ''t2''])
        [''Pizza'', ''Tacos''])) =
     vote_options (fst (set_vote_options (store_after [CastVote 5 1 ''t0'']) [''Pizza'', ''Tacos'']))
   \<and> votes (fst (set_vote_options
        (run_db (fst (set_vote_options (store_after [CastVote 5 1 ''t0'']) [''Pizza'', ''Tacos'']))
           [CastVote 42 1 ''t1'', CastVote 7 2 ''t2''])
        [''Pizza'', ''Tacos''])) = Some []
   \<and> votes (run_db (fst (set_vote_options (store_after [CastVote 5 1 ''t0'']) [''Pizza'', ''Tacos'']))
           [CastVote 42 1 ''t1'', CastVote 7 2 ''t2'']) =
     Some [(42, 1, ''t1''), (7, 2, ''t2'')]"
proof -
  have h: "2 \<le> length (usable_labels [''Pizza'', ''Tacos''])"
    by code_simp
  have v: "votes (run_db (fst (set_vote_options (store_after [CastVote 5 1 ''t0'']) [''Pizza'', ''Tacos'']))
           [CastVote 42 1 ''t1'', CastVote 7 2 ''t2'']) =
     Some [(42, 1, ''t1''), (7, 2, ''t2'')]"
    by code_simp
  from h v
    set_vote_options_twice
      [OF h, of "[CastVote 5 1 ''t0'']" "[CastVote 42 1 ''t1'', CastVote 7 2 ''t2'']"]
  show ?thesis by blast
qed

subsection \<open>C9: reading\<close>

text \<open>
  C9. The six read operations \<open>list_vote_options\<close>, \<open>option_exists\<close>,
  \<open>user_has_voted\<close>, \<open>get_vote_standings\<close>, \<open>get_total_votes\<close> and
  \<open>get_vote_label\<close> leave the content of the store, options and votes, exactly as it
  was, on every store and for every argument.
\<close>

theorem reads_change_nothing:
  "fst (list_vote_options d) = d \<and> fst (option_exists d opt) = d \<and>
   fst (user_has_voted d u) = d \<and> fst (get_vote_standings d) = d \<and>
   fst (get_total_votes d) = d \<and> fst (get_vote_label d opt) = d"
  by (simp add: list_vote_options_db option_exists_db user_has_voted_db get_vote_standings_db
      get_total_votes_db get_vote_label_db)

theorem reads_change_nothing_witness:
  "fst (get_vote_standings
     \<lparr>vote_options = Some [(1, ''Pizza''), (2, ''Tacos'')], votes = Some [(42, 1, ''t1'')]\<rparr>) =
     \<lparr>vote_options = Some [(1, ''Pizza''), (2, ''Tacos'')], votes = Some [(42, 1, ''t1'')]\<rparr>
   \<and> snd (get_vote_standings
     \<lparr>vote_options = Some [(1, ''Pizza''), (2, ''Tacos'')], votes = Some [(42, 1, ''t1'')]\<rparr>) =
     Inr [\<lparr>option_id = 1, label = ''Pizza'', vote_count = 1\<rparr>,
          \<lparr>option_id = 2, label = ''Tacos'', vote_count = 0\<rparr>]"
proof -
  have s: "snd (get_vote_standings
     \<lparr>vote_options = Some [(1, ''Pizza''), (2, ''Tacos'')], votes = Some [(42, 1, ''t1'')]\<rparr>) =
     Inr [\<lparr>option_id = 1, label = ''Pizza'', vote_count = 1\<rparr>,
          \<lparr>option_id = 2, label = ''Tacos'', vote_count = 0\<rparr>]"
    by code_simp
  from s reads_change_nothing
      [of "\<lparr>vote_options = Some [(1, ''Pizza''), (2, ''Tacos'')], votes = Some [(42, 1, ''t1'')]\<rparr>"]
  show ?thesis by blast
qed

subsection \<open>C10: equal labels\<close>

text \<open>
  C10. \<open>set_vote_options\<close> asks nothing about distinctness: with at least two usable
  labels it succeeds on every store of the program, and the option rows are the usable
  labels one by one, the label at position \<open>i\<close> under the id \<open>i + 1\<close>, so equal
  labels are separate rows with different ids.
\<close>

theorem set_vote_options_keeps_duplicates:
  assumes "2 \<le> length (usable_labels labels)"
  shows "\<exists>rows. set_vote_options (store_after hist) labels =
                  (\<lparr>vote_options = Some rows, votes = Some []\<rparr>,
                   Inr (int (length (usable_labels labels))))
               \<and> length rows = length (usable_labels labels)
               \<and> distinct (map fst rows)
               \<and> (\<forall>i<length rows. rows ! i = (int i + 1, usable_labels labels ! i))"
proof -
  let ?ls = "usable_labels labels"
  let ?rows = "zip [1..int (length ?ls)] ?ls"
  have len: "length ?rows = length ?ls" by simp
  have ids: "map fst ?rows = [1..int (length ?ls)]"
    by (simp add: map_fst_zip)
  have nth: "\<forall>i<length ?rows. ?rows ! i = (int i + 1, ?ls ! i)"
    by (simp add: algebra_simps)
  from ids have "distinct (map fst ?rows)" by simp
  with len nth set_vote_options_ok [OF store_ok_store_after assms, of hist]
  show ?thesis by blast
qed

theorem set_vote_options_keeps_duplicates_witness:
  "2 \<le> length (usable_labels [''Yes'', ''Yes '', ''No''])
   \<and> snd (list_vote_options (fst (set_vote_options (store_after []) [''Yes'', ''Yes '', ''No'']))) =
       Inr [(1, ''Yes''), (2, ''Yes''), (3, ''No'')]
   \<and> (\<exists>rows. set_vote_options (store_after []) [''Yes'', ''Yes '', ''No''] =
                  (\<lparr>vote_options = Some rows, votes = Some []\<rparr>,
                   Inr (int (length (usable_labels [''Yes'', ''Yes '', ''No'']))))
               \<and> length rows = length (usable_labels [''Yes'', ''Yes '', ''No''])
               \<and> distinct (map fst rows)
               \<and> (\<forall>i<length rows. rows ! i = (int i + 1, usable_labels [''Yes'', ''Yes '', ''No''] ! i)))"
proof -
  have h: "2 \<le> length (usable_labels [''Yes'', ''Yes '', ''No''])"
    by code_simp
  have l: "snd (list_vote_options (fst (set_vote_options (store_after []) [''Yes'', ''Yes '', ''No'']))) =
       Inr [(1, ''Yes''), (2, ''Yes''), (3, ''No'')]"
    by code_simp
  from h l set_vote_options_keeps_duplicates [OF h, of "[]"]
  show ?thesis by blast
qed

end
